theory Spec2Isabelle
  imports Main
begin

section \<open>Values exchanged with the server under test\<close>

text \<open>
  JSON values carry GraphQL variables, request bodies and frame payloads. A JavaScript
  object used as a dictionary (headers, cookies) is a finite map from property names.
\<close>

datatype json =
    JNull
  | JBool bool
  | JNum int
  | JStr string
  | JArr "json list"
  | JObj "(string \<times> json) list"

text \<open>A value of \<open>IncomingHttpHeaders\<close>: a string, a list of strings or \<open>undefined\<close>.\<close>

datatype header_value = HStr string | HList "string list" | HUndefined

type_synonym http_headers = "string \<rightharpoonup> header_value"
type_synonym http_cookies = "string \<rightharpoonup> string"

text \<open>The query argument: \<open>DocumentNode | string\<close>.\<close>

datatype 'doc query_src = QueryString string | QueryDocument 'doc

text \<open>
  \<open>operationName?: string | null\<close>: the property may be absent (\<open>undefined\<close>), \<open>null\<close> or a
  string.
\<close>

datatype operation_name = OpUndefined | OpNull | OpName string

record query_options =
  qo_variables :: "json option"
  qo_operationName :: operation_name
  qo_headers :: "http_headers option"
  qo_cookies :: "http_cookies option"

text \<open>The argument of \<open>app.inject\<close>.\<close>

record inject_opts =
  io_method :: string
  io_url :: string
  io_cookies :: http_cookies
  io_headers :: http_headers
  io_payload :: string

text \<open>The global options of \<open>createMercuriusTestClient\<close>; every property is optional.\<close>

record client_opts =
  co_headers :: "http_headers option"
  co_url :: "string option"
  co_cookies :: "http_cookies option"

text \<open>What \<open>app.server.address()\<close> returns: \<open>null\<close>, a pipe name or an address record.\<close>

datatype server_address = AddressNull | AddressPipe string | AddressInfo nat

text \<open>
  The collaborators the library calls and does not implement: the GraphQL printer,
  \<open>JSON.stringify\<close>, and the Fastify instance (request injection, the parsed body of a
  response, the address of its server, \<open>listen\<close>) together with \<open>getPort\<close>. The instance
  has a state of its own, \<open>'app\<close>, which an injection or \<open>listen\<close> may change. Injection and
  \<open>json()\<close> follow the collaborator contract \<open>inject(...) -> {json()}\<close>; \<open>getPort\<close> and
  \<open>listen\<close> may fail, which \<open>subscribe\<close> catches.
\<close>

record ('doc, 'resp, 'app, 'err) host =
  print :: "'doc \<Rightarrow> string"
  JSON_stringify :: "json \<Rightarrow> string"
  inject :: "inject_opts \<Rightarrow> 'app \<Rightarrow> 'resp \<times> 'app"
  json_of :: "'resp \<Rightarrow> json"
  address :: "'app \<Rightarrow> server_address"
  getPort :: "'app \<Rightarrow> 'err + nat"
  listen :: "nat \<Rightarrow> 'app \<Rightarrow> 'err + 'app"

section \<open>The HTTP side of the test client\<close>

text \<open>
  The variables the closures of \<open>createMercuriusTestClient\<close> share: the two \<open>let\<close>
  bindings \<open>headers\<close> and \<open>cookies\<close>, the Fastify instance, and the requests injected so
  far (oldest first).
\<close>

record 'app world =
  var_headers :: http_headers
  var_cookies :: http_cookies
  app :: 'app
  injected :: "inject_opts list"

definition content_type_header :: http_headers where
  "content_type_header = [''content-type'' \<mapsto> HStr ''application/json; charset=utf-8'']"

text \<open>\<open>typeof query === "string" ? query : print(query)\<close>\<close>

definition query_text :: "('doc, 'resp, 'app, 'err) host \<Rightarrow> 'doc query_src \<Rightarrow> string" where
  "query_text h q = (case q of QueryString s \<Rightarrow> s | QueryDocument d \<Rightarrow> print h d)"

text \<open>A destructuring default applies when the property is \<open>undefined\<close>.\<close>

definition or_default :: "'a option \<Rightarrow> 'a \<Rightarrow> 'a" where
  "or_default v d = (case v of None \<Rightarrow> d | Some x \<Rightarrow> x)"

definition operation_name_json :: "operation_name \<Rightarrow> json" where
  "operation_name_json n = (case n of OpUndefined \<Rightarrow> JNull | OpNull \<Rightarrow> JNull | OpName s \<Rightarrow> JStr s)"

definition empty_query_options :: query_options where
  "empty_query_options =
     \<lparr>qo_variables = None, qo_operationName = OpUndefined, qo_headers = None, qo_cookies = None\<rparr>"

text \<open>The body of one query: \<open>{query, variables, operationName}\<close>.\<close>

definition query_body :: "('doc, 'resp, 'app, 'err) host \<Rightarrow> 'doc query_src \<Rightarrow> query_options \<Rightarrow> json" where
  "query_body h q qo =
     JObj [(''query'', JStr (query_text h q)),
           (''variables'', or_default (qo_variables qo) (JObj [])),
           (''operationName'', operation_name_json (qo_operationName qo))]"

text \<open>The request \<open>query\<close> builds; a later spread overrides an earlier one.\<close>

definition query_request ::
  "('doc, 'resp, 'app, 'err) host \<Rightarrow> string \<Rightarrow> 'app world \<Rightarrow> 'doc query_src \<Rightarrow> query_options \<Rightarrow> inject_opts" where
  "query_request h url w q qo =
     \<lparr>io_method = ''POST'',
      io_url = url,
      io_cookies = var_cookies w ++ or_default (qo_cookies qo) Map.empty,
      io_headers = content_type_header ++ var_headers w ++ or_default (qo_headers qo) Map.empty,
      io_payload = JSON_stringify h (query_body h q qo)\<rparr>"

text \<open>Awaiting \<open>app.inject\<close>: the request is recorded and the instance answers.\<close>

definition do_inject ::
  "('doc, 'resp, 'app, 'err) host \<Rightarrow> inject_opts \<Rightarrow> 'app world \<Rightarrow> 'resp \<times> 'app world" where
  "do_inject h req w =
     (case inject h req (app w) of
        (resp, a) \<Rightarrow> (resp, w\<lparr>app := a, injected := injected w @ [req]\<rparr>))"

text \<open>
  \<open>query\<close>: the options default to \<open>{}\<close>; the result is the value the returned promise
  resolves with, and the world after the call.
\<close>

definition query ::
  "('doc, 'resp, 'app, 'err) host \<Rightarrow> string \<Rightarrow> 'doc query_src \<Rightarrow> query_options option \<Rightarrow>
   'app world \<Rightarrow> json \<times> 'app world" where
  "query h url q queryOptions w =
     (case do_inject h (query_request h url w q (or_default queryOptions empty_query_options)) w of
        (resp, w') \<Rightarrow> (json_of h resp, w'))"

definition setHeaders :: "http_headers \<Rightarrow> 'app world \<Rightarrow> 'app world" where
  "setHeaders newHeaders w = w\<lparr>var_headers := newHeaders\<rparr>"

definition setCookies :: "http_cookies \<Rightarrow> 'app world \<Rightarrow> 'app world" where
  "setCookies newCookies w = w\<lparr>var_cookies := newCookies\<rparr>"

text \<open>One entry of a batch: \<open>{query, variables?, operationName?}\<close>.\<close>

record 'doc batch_entry =
  be_query :: "'doc query_src"
  be_variables :: "json option"
  be_operationName :: "string option"

text \<open>\<open>operationName || null\<close>: the empty string is falsy as well.\<close>

definition batch_operation_name :: "string option \<Rightarrow> json" where
  "batch_operation_name n =
     (case n of None \<Rightarrow> JNull | Some s \<Rightarrow> (if s = [] then JNull else JStr s))"

text \<open>The JSON values JavaScript takes as false: \<open>null\<close>, \<open>false\<close>, \<open>0\<close> and \<open>""\<close>.\<close>

definition falsy :: "json \<Rightarrow> bool" where
  "falsy j = (case j of
                JNull \<Rightarrow> True
              | JBool b \<Rightarrow> \<not> b
              | JNum n \<Rightarrow> n = 0
              | JStr t \<Rightarrow> t = []
              | _ \<Rightarrow> False)"

text \<open>\<open>variables || {}\<close>: an absent value and every falsy value give \<open>{}\<close>.\<close>

definition batch_variables :: "json option \<Rightarrow> json" where
  "batch_variables v =
     (case v of None \<Rightarrow> JObj [] | Some j \<Rightarrow> (if falsy j then JObj [] else j))"

definition batch_body :: "('doc, 'resp, 'app, 'err) host \<Rightarrow> 'doc batch_entry \<Rightarrow> json" where
  "batch_body h e =
     JObj [(''query'', JStr (query_text h (be_query e))),
           (''variables'', batch_variables (be_variables e)),
           (''operationName'', batch_operation_name (be_operationName e))]"

definition batch_request ::
  "('doc, 'resp, 'app, 'err) host \<Rightarrow> string \<Rightarrow> 'app world \<Rightarrow> 'doc batch_entry list \<Rightarrow>
   query_options \<Rightarrow> inject_opts" where
  "batch_request h url w queries qo =
     \<lparr>io_method = ''POST'',
      io_url = url,
      io_cookies = var_cookies w ++ or_default (qo_cookies qo) Map.empty,
      io_headers = content_type_header ++ var_headers w ++ or_default (qo_headers qo) Map.empty,
      io_payload = JSON_stringify h (JArr (map (batch_body h) queries))\<rparr>"

definition batchQueries ::
  "('doc, 'resp, 'app, 'err) host \<Rightarrow> string \<Rightarrow> 'doc batch_entry list \<Rightarrow> query_options option \<Rightarrow>
   'app world \<Rightarrow> json \<times> 'app world" where
  "batchQueries h url queries queryOptions w =
     (case do_inject h (batch_request h url w queries (or_default queryOptions empty_query_options)) w of
        (resp, w') \<Rightarrow> (json_of h resp, w'))"

text \<open>\<open>opts.url || "/graphql"\<close>: an absent and an empty url both give the default.\<close>

definition client_url :: "client_opts \<Rightarrow> string" where
  "client_url opts =
     (case co_url opts of None \<Rightarrow> ''/graphql'' | Some u \<Rightarrow> (if u = [] then ''/graphql'' else u))"

section \<open>Decimal numerals\<close>

text \<open>
  A number placed in a template literal, and a counter turned into a string key, is
  written in decimal without leading zeros.
\<close>

definition digit_char :: "nat \<Rightarrow> char" where
  "digit_char d = ''0123456789'' ! (d mod 10)"

fun decimal :: "nat \<Rightarrow> string" where
  "decimal n = (if n < 10 then [digit_char n] else decimal (n div 10) @ [digit_char (n mod 10)])"

declare decimal.simps [simp del]

text \<open>Reading a decimal numeral back; a character that is no digit counts as zero.\<close>

definition digit_value :: "char \<Rightarrow> nat" where
  "digit_value c = length (takeWhile (\<lambda>d. d \<noteq> c) ''0123456789'') mod 10"

definition decimal_value :: "string \<Rightarrow> nat" where
  "decimal_value s = foldl (\<lambda>acc c. 10 * acc + digit_value c) 0 s"

section \<open>The subscription protocol\<close>

text \<open>
  Modelled from the spec: a frame of the subscription subprotocol, \<open>{ id?, type, payload? }\<close>.
\<close>

record frame =
  frame_id :: "string option"
  frame_type :: string
  frame_payload :: "json option"

text \<open>The "data" frame for subscription \<open>i\<close> with payload \<open>p\<close>.\<close>

definition data_frame :: "string \<Rightarrow> json \<Rightarrow> frame" where
  "data_frame i p = \<lparr>frame_id = Some i, frame_type = ''data'', frame_payload = Some p\<rparr>"

text \<open>Modelled from the spec: the lifecycle states of the Transport Connection.\<close>

datatype conn_state = Connecting | Handshaking | Ready | Closing | Closed | Failed

text \<open>
  The connection-init payload: a static value, or a producer function, given by the
  outcome of invoking (and awaiting) it.
\<close>

datatype 'err init_payload = StaticPayload json | ProducerPayload "'err + json"

text \<open>
  What the failure callback, and a rejected promise, can carry: an error thrown by the
  host, a failure of the init-payload producer, a "connection_error" with its payload,
  the socket closing or failing before the acknowledgement, a call made too early.
\<close>

datatype 'err failure =
    HostError 'err
  | InitPayloadError 'err
  | ConnectionRejected "json option"
  | SocketClosedEarly
  | SocketFailed
  | NotReady

text \<open>
  The argument a subscriber callback receives, \<open>{ topic: string; payload: any }\<close>, as
  \<open>index.ts\<close> declares it.
\<close>

record publish_arg =
  pa_topic :: string
  pa_payload :: json

subsection \<open>Subscription Registry\<close>

text \<open>
  Modelled from the spec: the Subscription Registry of \<open>subscription/client\<close>, which is not
  among the sources. It maps locally generated identifiers to subscriber callbacks: the
  last identifier allocated, as a number, and the entries in the order of registration.
\<close>

record 'cb registry =
  last_id :: nat
  entries :: "(string \<times> 'cb) list"

text \<open>Modelled from the spec: the Registry of a new connection, one instance per connection.\<close>

definition empty_registry :: "'cb registry" where
  "empty_registry = \<lparr>last_id = 0, entries = []\<rparr>"

text \<open>
  Modelled from the spec: \<open>register(callback) -> id\<close> allocates the next identifier,
  strictly increasing per connection, stored as a string key; the first is \<open>"1"\<close>.
\<close>

definition register :: "'cb \<Rightarrow> 'cb registry \<Rightarrow> string \<times> 'cb registry" where
  "register cb r =
     (let n = Suc (last_id r); i = decimal n
      in (i, \<lparr>last_id = n, entries = entries r @ [(i, cb)]\<rparr>))"

text \<open>Modelled from the spec: \<open>lookup(id) -> callback?\<close>, by the exact key.\<close>

definition lookup :: "string \<Rightarrow> 'cb registry \<Rightarrow> 'cb option" where
  "lookup i r = map_of (entries r) i"

text \<open>Modelled from the spec: \<open>remove(id)\<close>, by the exact key.\<close>

definition remove_id :: "string \<Rightarrow> 'cb registry \<Rightarrow> 'cb registry" where
  "remove_id i r = r\<lparr>entries := filter (\<lambda>e. fst e \<noteq> i) (entries r)\<rparr>"

text \<open>Modelled from the spec: the Registry is cleared when the connection is closed.\<close>

definition clear :: "'cb registry \<Rightarrow> 'cb registry" where
  "clear r = r\<lparr>entries := []\<rparr>"

definition registered_ids :: "'cb registry \<Rightarrow> string list" where
  "registered_ids r = map fst (entries r)"

text \<open>A sequence of Registry operations, run from the empty Registry of a new connection.\<close>

datatype 'cb registry_op = Register 'cb | Remove string | Clear

fun registry_step :: "'cb registry \<Rightarrow> 'cb registry_op \<Rightarrow> 'cb registry" where
  "registry_step r (Register cb) = snd (register cb r)"
| "registry_step r (Remove i) = remove_id i r"
| "registry_step r Clear = clear r"

definition registry_run :: "'cb registry_op list \<Rightarrow> 'cb registry" where
  "registry_run ops = foldl registry_step empty_registry ops"

text \<open>The identifiers the \<open>register\<close> calls of such a sequence return, in order.\<close>

fun allocated :: "'cb registry \<Rightarrow> 'cb registry_op list \<Rightarrow> string list" where
  "allocated r [] = []"
| "allocated r (Register cb # ops) = fst (register cb r) # allocated (snd (register cb r)) ops"
| "allocated r (Remove i # ops) = allocated (remove_id i r) ops"
| "allocated r (Clear # ops) = allocated (clear r) ops"

subsection \<open>Transport Connection\<close>

text \<open>
  Modelled from the spec: the class \<open>SubscriptionClient\<close> of \<open>subscription/client\<close>, which is
  not among the sources. The state is the lifecycle state of section 4.1, the Registry,
  the frames sent over the socket (oldest first), whether the connection still holds a
  socket it has not closed and that the peer has not closed, how many times it asked the
  socket to close, and the callbacks it has fired: how often the success callback, and
  with which errors the failure callback.
\<close>

record ('w, 'err) client =
  uri :: string
  conn_state :: conn_state
  registry :: "(publish_arg \<Rightarrow> 'w \<Rightarrow> 'w) registry"
  outbox :: "frame list"
  socket_open :: bool
  socket_closes :: nat
  succeeded :: nat
  failures :: "'err failure list"

text \<open>
  Modelled from the spec: the configuration given at construction. The callbacks run inside the receive loop, on
  the connection and on the state \<open>'w\<close> of whoever owns it. \<open>topic_of\<close> is the topic
  attached to a delivery for an identifier, which the spec leaves open.
\<close>

record ('w, 'err) client_config =
  connectionInitPayload :: "'err init_payload"
  connectionCallback :: "('w, 'err) client \<times> 'w \<Rightarrow> ('w, 'err) client \<times> 'w"
  failedConnectionCallback :: "'err failure \<Rightarrow> ('w, 'err) client \<times> 'w \<Rightarrow> ('w, 'err) client \<times> 'w"
  topic_of :: "string \<Rightarrow> string"

text \<open>
  Modelled from the spec: a new connection is \<open>Connecting\<close>, its socket is opening, its
  Registry is empty and nothing has been sent.
\<close>

definition new_client :: "string \<Rightarrow> ('w, 'err) client" where
  "new_client u =
     \<lparr>uri = u, conn_state = Connecting, registry = empty_registry, outbox = [],
      socket_open = True, socket_closes = 0, succeeded = 0, failures = []\<rparr>"

text \<open>Modelled from the spec: a frame sent over the socket.\<close>

definition sendMessage :: "frame \<Rightarrow> ('w, 'err) client \<Rightarrow> ('w, 'err) client" where
  "sendMessage f c = c\<lparr>outbox := outbox c @ [f]\<rparr>"

definition sent_types :: "('w, 'err) client \<Rightarrow> string list" where
  "sent_types c = map frame_type (outbox c)"

text \<open>
  Modelled from the spec: on a failure while connecting or handshaking the connection
  becomes \<open>Failed\<close> and invokes the failure callback.
\<close>

definition fail_handshake ::
  "('w, 'err) client_config \<Rightarrow> 'err failure \<Rightarrow> ('w, 'err) client \<times> 'w \<Rightarrow> ('w, 'err) client \<times> 'w" where
  "fail_handshake cfg e cw =
     (case cw of (c, w) \<Rightarrow>
        failedConnectionCallback cfg e (c\<lparr>conn_state := Failed, failures := failures c @ [e]\<rparr>, w))"

text \<open>
  Modelled from the spec: \<open>createSubscription\<close> requires \<open>Ready\<close>; an earlier call fails
  deterministically and changes nothing. Otherwise it registers the callback and sends a
  "start" message carrying the new id, which it returns.
\<close>

definition createSubscription ::
  "string \<Rightarrow> json \<Rightarrow> (publish_arg \<Rightarrow> 'w \<Rightarrow> 'w) \<Rightarrow> ('w, 'err) client \<Rightarrow>
   'err failure + (string \<times> ('w, 'err) client)" where
  "createSubscription q variables cb c =
     (if conn_state c \<noteq> Ready then Inl NotReady
      else (case register cb (registry c) of
              (i, r) \<Rightarrow>
                Inr (i, sendMessage
                          \<lparr>frame_id = Some i, frame_type = ''start'',
                           frame_payload = Some (JObj [(''query'', JStr q), (''variables'', variables)])\<rparr>
                          (c\<lparr>registry := r\<rparr>))))"

text \<open>
  Modelled from the spec: \<open>unsubscribe(id)\<close> sends a "stop" message for that id and
  removes it from the Registry at once. Outside \<open>Ready\<close> the call is not accepted.
\<close>

definition unsubscribe :: "string \<Rightarrow> ('w, 'err) client \<Rightarrow> ('w, 'err) client" where
  "unsubscribe i c =
     (if conn_state c \<noteq> Ready then c
      else sendMessage \<lparr>frame_id = Some i, frame_type = ''stop'', frame_payload = None\<rparr>
             (c\<lparr>registry := remove_id i (registry c)\<rparr>))"

text \<open>
  Modelled from the spec: \<open>close()\<close> sends no frame, clears the Registry, and closes the
  socket if the connection still holds it. A connection that is not yet closing starts closing;
  \<open>Failed\<close> is terminal.
\<close>

definition close :: "('w, 'err) client \<Rightarrow> ('w, 'err) client" where
  "close c =
     c\<lparr>conn_state :=
         (if conn_state c = Failed then Failed
          else if conn_state c = Closed then Closed
          else Closing),
       registry := clear (registry c),
       socket_open := False,
       socket_closes := (if socket_open c then Suc (socket_closes c) else socket_closes c)\<rparr>"

text \<open>
  Modelled from the spec: what the socket reports to the connection; a text frame that
  does not decode to a message is malformed.
\<close>

datatype socket_event =
    SocketOpen
  | SocketMessage frame
  | SocketMalformed
  | SocketClose
  | SocketError

text \<open>
  Modelled from the spec: a frame received in \<open>Ready\<close>, demultiplexed by its type. A
  "data" frame goes to the callback registered under its id, if any; an "error" frame
  with an id goes to that callback and ends the subscription, one without an id is fatal;
  "complete" removes the id; "ka" and unrecognized types are ignored. A "data" or
  "error" frame without its required payload, and a "complete" frame without an id, are
  dropped.
\<close>

definition handle_ready ::
  "('w, 'err) client_config \<Rightarrow> frame \<Rightarrow> ('w, 'err) client \<times> 'w \<Rightarrow> ('w, 'err) client \<times> 'w" where
  "handle_ready cfg f cw =
     (case cw of (c, w) \<Rightarrow>
        if frame_type f = ''data'' then
          (case (frame_id f, frame_payload f) of
             (Some i, Some p) \<Rightarrow>
               (case lookup i (registry c) of
                  Some cb \<Rightarrow> (c, cb \<lparr>pa_topic = topic_of cfg i, pa_payload = p\<rparr> w)
                | None \<Rightarrow> (c, w))
           | _ \<Rightarrow> (c, w))
        else if frame_type f = ''error'' then
          (case (frame_id f, frame_payload f) of
             (Some i, Some p) \<Rightarrow>
               (case lookup i (registry c) of
                  Some cb \<Rightarrow>
                    (c\<lparr>registry := remove_id i (registry c)\<rparr>,
                     cb \<lparr>pa_topic = topic_of cfg i, pa_payload = p\<rparr> w)
                | None \<Rightarrow> (c, w))
           | (None, Some p) \<Rightarrow> (c\<lparr>conn_state := Failed\<rparr>, w)
           | _ \<Rightarrow> (c, w))
        else if frame_type f = ''complete'' then
          (case frame_id f of
             Some i \<Rightarrow> (c\<lparr>registry := remove_id i (registry c)\<rparr>, w)
           | None \<Rightarrow> (c, w))
        else (c, w))"

text \<open>
  Modelled from the spec: a frame received while \<open>Handshaking\<close>. On "connection_ack" the
  connection becomes \<open>Ready\<close> and invokes the success callback; on "connection_error" it
  fails.
\<close>

definition handle_handshaking ::
  "('w, 'err) client_config \<Rightarrow> frame \<Rightarrow> ('w, 'err) client \<times> 'w \<Rightarrow> ('w, 'err) client \<times> 'w" where
  "handle_handshaking cfg f cw =
     (case cw of (c, w) \<Rightarrow>
        if frame_type f = ''connection_ack'' then
          connectionCallback cfg (c\<lparr>conn_state := Ready, succeeded := Suc (succeeded c)\<rparr>, w)
        else if frame_type f = ''connection_error'' then
          fail_handshake cfg (ConnectionRejected (frame_payload f)) (c, w)
        else (c, w))"

text \<open>
  Modelled from the spec: the socket has opened. The init payload is resolved and
  "connection_init" is sent; a producer that fails makes the connection fail.
\<close>

definition handle_open ::
  "('w, 'err) client_config \<Rightarrow> ('w, 'err) client \<times> 'w \<Rightarrow> ('w, 'err) client \<times> 'w" where
  "handle_open cfg cw =
     (case cw of (c, w) \<Rightarrow>
        (case (case connectionInitPayload cfg of StaticPayload p \<Rightarrow> Inr p | ProducerPayload r \<Rightarrow> r) of
           Inl e \<Rightarrow> fail_handshake cfg (InitPayloadError e) (c, w)
         | Inr p \<Rightarrow>
             (sendMessage \<lparr>frame_id = None, frame_type = ''connection_init'', frame_payload = Some p\<rparr>
                (c\<lparr>conn_state := Handshaking\<rparr>), w)))"

text \<open>
  Modelled from the spec: the receive loop. One event is processed at a time, by the lifecycle state. A
  malformed frame is dropped; after \<open>Closing\<close> and in \<open>Failed\<close> every frame is ignored.
\<close>

definition receive ::
  "('w, 'err) client_config \<Rightarrow> socket_event \<Rightarrow> ('w, 'err) client \<times> 'w \<Rightarrow> ('w, 'err) client \<times> 'w" where
  "receive cfg ev cw =
     (case cw of (c, w) \<Rightarrow>
        (case ev of
           SocketOpen \<Rightarrow> (if conn_state c = Connecting then handle_open cfg (c, w) else (c, w))
         | SocketMessage f \<Rightarrow>
             (if conn_state c = Handshaking then handle_handshaking cfg f (c, w)
              else if conn_state c = Ready then handle_ready cfg f (c, w)
              else (c, w))
         | SocketMalformed \<Rightarrow> (c, w)
         | SocketClose \<Rightarrow>
             (if conn_state c = Connecting \<or> conn_state c = Handshaking then
                fail_handshake cfg SocketClosedEarly (c\<lparr>socket_open := False\<rparr>, w)
              else if conn_state c = Ready then (c\<lparr>conn_state := Failed, socket_open := False\<rparr>, w)
              else if conn_state c = Closing then (c\<lparr>conn_state := Closed, socket_open := False\<rparr>, w)
              else (c\<lparr>socket_open := False\<rparr>, w))
         | SocketError \<Rightarrow>
             (if conn_state c = Connecting \<or> conn_state c = Handshaking then
                fail_handshake cfg SocketFailed (c, w)
              else if conn_state c = Ready then (c\<lparr>conn_state := Failed\<rparr>, w)
              else (c, w))))"

section \<open>Subscriptions of the test client\<close>

text \<open>
  \<open>subscribe\<close> returns a promise and reacts to what happens later: socket events handled
  by the connection, the passing of time, the timer set by the connection callback, and
  the caller using the handle the promise resolved with. The state besides the
  connection is the promise, the pending timers (the time each was set at and its
  delay), the clock, the state of the caller, which only \<open>onData\<close> changes, the warnings
  logged, and the Fastify instance.
\<close>

datatype 'err promise = Pending | Resolved | Rejected "'err failure"

record ('doc, 'u, 'err) subscribe_opts =
  so_query :: "'doc query_src"
  so_variables :: "json option"
  so_initPayload :: "'err init_payload option"
  so_onData :: "json \<Rightarrow> 'u \<Rightarrow> 'u"

record ('u, 'app, 'err) process =
  promise :: "'err promise"
  timers :: "(nat \<times> nat) list"
  now :: nat
  user :: 'u
  warnings :: "string list"
  server :: 'app

type_synonym ('u, 'app, 'err) subscription =
  "(('u, 'app, 'err) process, 'err) client option \<times> ('u, 'app, 'err) process"

text \<open>Settling a promise that is already settled has no effect.\<close>

definition resolve :: "('u, 'app, 'err) process \<Rightarrow> ('u, 'app, 'err) process" where
  "resolve w = (if promise w = Pending then w\<lparr>promise := Resolved\<rparr> else w)"

definition reject :: "'err failure \<Rightarrow> ('u, 'app, 'err) process \<Rightarrow> ('u, 'app, 'err) process" where
  "reject e w = (if promise w = Pending then w\<lparr>promise := Rejected e\<rparr> else w)"

definition setTimeout :: "nat \<Rightarrow> ('u, 'app, 'err) process \<Rightarrow> ('u, 'app, 'err) process" where
  "setTimeout delay w = w\<lparr>timers := timers w @ [(now w, delay)]\<rparr>"

text \<open>\<open>({ payload }) => { onData(payload); }\<close>\<close>

definition onData_wrapper ::
  "(json \<Rightarrow> 'u \<Rightarrow> 'u) \<Rightarrow> publish_arg \<Rightarrow> ('u, 'app, 'err) process \<Rightarrow> ('u, 'app, 'err) process" where
  "onData_wrapper onData arg w = w\<lparr>user := onData (pa_payload arg) (user w)\<rparr>"

text \<open>
  The configuration \<open>subscribe\<close> passes to \<open>new SubscriptionClient\<close>. The connection
  callback creates the subscription and then sets the timer that resolves the promise;
  if \<open>createSubscription\<close> throws, the timer is never set. The failure callback is
  \<open>reject\<close>. The topic function belongs to the connection and is a parameter.
\<close>

definition subscription_config ::
  "('doc, 'resp, 'app, 'err) host \<Rightarrow> (string \<Rightarrow> string) \<Rightarrow> ('doc, 'u, 'err) subscribe_opts \<Rightarrow>
   (('u, 'app, 'err) process, 'err) client_config" where
  "subscription_config h topic sopts =
     \<lparr>connectionInitPayload = or_default (so_initPayload sopts) (StaticPayload (JObj [])),
      connectionCallback =
        (\<lambda>cw. case cw of (c, w) \<Rightarrow>
           (case createSubscription (query_text h (so_query sopts))
                   (or_default (so_variables sopts) (JObj []))
                   (onData_wrapper (so_onData sopts)) c of
              Inl e \<Rightarrow> (c, w)
            | Inr r \<Rightarrow> (snd r, setTimeout 20 w))),
      failedConnectionCallback = (\<lambda>e cw. case cw of (c, w) \<Rightarrow> (c, reject e w)),
      topic_of = topic\<rparr>"

text \<open>\<open>`ws://localhost:${port}${url}`\<close>\<close>

definition ws_url :: "nat \<Rightarrow> string \<Rightarrow> string" where
  "ws_url port url = ''ws://localhost:'' @ decimal port @ url"

text \<open>
  The executor of the promise, up to the construction of the connection: the port is
  that of the listening server, or one obtained from \<open>getPort\<close> on which the instance is
  made to listen after a warning. An error thrown on the way rejects the promise, and no
  connection exists then. The clock starts at the call.
\<close>

definition subscribe ::
  "('doc, 'resp, 'app, 'err) host \<Rightarrow> string \<Rightarrow> ('doc, 'u, 'err) subscribe_opts \<Rightarrow> 'app \<Rightarrow> 'u \<Rightarrow>
   ('u, 'app, 'err) subscription" where
  "subscribe h url sopts a u =
     (let w0 = \<lparr>promise = Pending, timers = [], now = 0, user = u, warnings = [], server = a\<rparr>;
          w1 = w0\<lparr>warnings := [''Remember to close the app instance manually'']\<rparr>
      in case address h a of
           AddressInfo port \<Rightarrow> (Some (new_client (ws_url port url)), w0)
         | _ \<Rightarrow>
             (case getPort h a of
                Inl e \<Rightarrow> (None, reject (HostError e) w1)
              | Inr port \<Rightarrow>
                  (case listen h port a of
                     Inl e \<Rightarrow> (None, reject (HostError e) w1)
                   | Inr a' \<Rightarrow> (Some (new_client (ws_url port url)), w1\<lparr>server := a'\<rparr>))))"

text \<open>The method of the handle: \<open>unsubscribe() { subscriptionClient.close(); }\<close>\<close>

definition handle_unsubscribe :: "('u, 'app, 'err) subscription \<Rightarrow> ('u, 'app, 'err) subscription" where
  "handle_unsubscribe s = (map_option close (fst s), snd s)"

text \<open>A timer runs its callback once its delay has passed; the callback is \<open>resolve\<close>.\<close>

definition fire_timer :: "('u, 'app, 'err) process \<Rightarrow> ('u, 'app, 'err) process" where
  "fire_timer w =
     (case timers w of
        [] \<Rightarrow> w
      | t # ts \<Rightarrow> (if fst t + snd t \<le> now w then resolve (w\<lparr>timers := ts\<rparr>) else w))"

datatype event = Socket socket_event | Elapse nat | TimerFire | Unsubscribe

text \<open>
  One event. The caller can use the handle only once the promise has resolved with it.
\<close>

definition step ::
  "(('u, 'app, 'err) process, 'err) client_config \<Rightarrow> event \<Rightarrow> ('u, 'app, 'err) subscription \<Rightarrow>
   ('u, 'app, 'err) subscription" where
  "step cfg ev s =
     (case ev of
        Socket e \<Rightarrow>
          (case fst s of
             None \<Rightarrow> s
           | Some c \<Rightarrow> (case receive cfg e (c, snd s) of (c', w') \<Rightarrow> (Some c', w')))
      | Elapse d \<Rightarrow> (fst s, (snd s)\<lparr>now := now (snd s) + d\<rparr>)
      | TimerFire \<Rightarrow> (fst s, fire_timer (snd s))
      | Unsubscribe \<Rightarrow> (if promise (snd s) = Resolved then handle_unsubscribe s else s))"

definition run ::
  "(('u, 'app, 'err) process, 'err) client_config \<Rightarrow> event list \<Rightarrow> ('u, 'app, 'err) subscription \<Rightarrow>
   ('u, 'app, 'err) subscription" where
  "run cfg evs s = foldl (\<lambda>s ev. step cfg ev s) s evs"

subsection \<open>Several subscriptions on one connection\<close>

text \<open>
  Calls on a connection, interleaved with what its socket reports: a subscription
  created the way \<open>subscribe\<close> creates one, with the wrapper around an \<open>onData\<close> of the
  caller; \<open>unsubscribe(id)\<close>; an event of the socket; \<open>close()\<close>. Beside the connection
  and the state of its owner, the run keeps the list of the subscriptions created: the
  id \<open>createSubscription\<close> returned and the \<open>onData\<close> it was created for.
\<close>

datatype 'u client_op =
    OpCreate string json "json \<Rightarrow> 'u \<Rightarrow> 'u"
  | OpUnsubscribe string
  | OpReceive socket_event
  | OpClose

type_synonym ('u, 'app, 'err) tracked_client =
  "(('u, 'app, 'err) process, 'err) client \<times> ('u, 'app, 'err) process \<times>
   (string \<times> (json \<Rightarrow> 'u \<Rightarrow> 'u)) list"

fun client_step ::
  "(('u, 'app, 'err) process, 'err) client_config \<Rightarrow> ('u, 'app, 'err) tracked_client \<Rightarrow>
   'u client_op \<Rightarrow> ('u, 'app, 'err) tracked_client" where
  "client_step cfg (c, w, created) (OpCreate q variables onData) =
     (case createSubscription q variables (onData_wrapper onData) c of
        Inl e \<Rightarrow> (c, w, created)
      | Inr r \<Rightarrow> (snd r, w, created @ [(fst r, onData)]))"
| "client_step cfg (c, w, created) (OpUnsubscribe i) = (unsubscribe i c, w, created)"
| "client_step cfg (c, w, created) (OpReceive ev) =
     (case receive cfg ev (c, w) of (c', w') \<Rightarrow> (c', w', created))"
| "client_step cfg (c, w, created) OpClose = (close c, w, created)"

definition client_run ::
  "(('u, 'app, 'err) process, 'err) client_config \<Rightarrow> 'u client_op list \<Rightarrow>
   ('u, 'app, 'err) tracked_client \<Rightarrow> ('u, 'app, 'err) tracked_client" where
  "client_run cfg ops st = foldl (client_step cfg) st ops"

section \<open>The test client\<close>

text \<open>
  The object \<open>createMercuriusTestClient\<close> returns. Its \<open>headers\<close> and \<open>cookies\<close> properties
  hold the values the two variables had when the object was built.
\<close>

record ('doc, 'app, 'u, 'err) test_client =
  tc_query :: "'doc query_src \<Rightarrow> query_options option \<Rightarrow> 'app world \<Rightarrow> json \<times> 'app world"
  tc_mutate :: "'doc query_src \<Rightarrow> query_options option \<Rightarrow> 'app world \<Rightarrow> json \<times> 'app world"
  tc_setHeaders :: "http_headers \<Rightarrow> 'app world \<Rightarrow> 'app world"
  tc_headers :: http_headers
  tc_cookies :: http_cookies
  tc_setCookies :: "http_cookies \<Rightarrow> 'app world \<Rightarrow> 'app world"
  tc_batchQueries ::
    "'doc batch_entry list \<Rightarrow> query_options option \<Rightarrow> 'app world \<Rightarrow> json \<times> 'app world"
  tc_subscribe :: "('doc, 'u, 'err) subscribe_opts \<Rightarrow> 'app \<Rightarrow> 'u \<Rightarrow> ('u, 'app, 'err) subscription"

definition initial_world :: "'app \<Rightarrow> client_opts \<Rightarrow> 'app world" where
  "initial_world a opts =
     \<lparr>var_headers = or_default (co_headers opts) Map.empty,
      var_cookies = or_default (co_cookies opts) Map.empty,
      app = a,
      injected = []\<rparr>"

definition createMercuriusTestClient ::
  "('doc, 'resp, 'app, 'err) host \<Rightarrow> 'app \<Rightarrow> client_opts \<Rightarrow>
   ('doc, 'app, 'u, 'err) test_client \<times> 'app world" where
  "createMercuriusTestClient h a opts =
     (let w = initial_world a opts; url = client_url opts in
      (\<lparr>tc_query = query h url,
        tc_mutate = query h url,
        tc_setHeaders = setHeaders,
        tc_headers = var_headers w,
        tc_cookies = var_cookies w,
        tc_setCookies = setCookies,
        tc_batchQueries = batchQueries h url,
        tc_subscribe = subscribe h url\<rparr>, w))"

section \<open>Invariants\<close>

text \<open>Every identifier in the Registry is the numeral of a counter value already used.\<close>

definition ids_below :: "'cb registry \<Rightarrow> bool" where
  "ids_below r \<longleftrightarrow>
     distinct (registered_ids r) \<and> (\<forall>k \<in> set (registered_ids r). decimal_value k \<le> last_id r)"

text \<open>Every callback in the Registry of a connection is the given one.\<close>

definition callbacks_are ::
  "(publish_arg \<Rightarrow> 'w \<Rightarrow> 'w) \<Rightarrow> ('w, 'err) client \<Rightarrow> bool" where
  "callbacks_are cb c \<longleftrightarrow> (\<forall>e \<in> set (entries (registry c)). snd e = cb)"

text \<open>
  From one Registry to a later one: the counter does not go back, the identifiers stay
  below it, and an identifier already allocated keeps its callback or is removed.
\<close>

definition registry_grows :: "'cb registry \<Rightarrow> 'cb registry \<Rightarrow> bool" where
  "registry_grows r r' \<longleftrightarrow>
     last_id r \<le> last_id r' \<and> (ids_below r \<longrightarrow> ids_below r') \<and>
     (\<forall>i. decimal_value i \<le> last_id r \<longrightarrow> lookup i r' = lookup i r \<or> lookup i r' = None)"

text \<open>
  The callbacks of a configuration use the connection they are given only in that way,
  as they do when they call its operations.
\<close>

definition respects_registry :: "('w, 'err) client_config \<Rightarrow> bool" where
  "respects_registry cfg \<longleftrightarrow>
     (\<forall>c w. registry_grows (registry c) (registry (fst (connectionCallback cfg (c, w))))) \<and>
     (\<forall>e c w. registry_grows (registry c)
                (registry (fst (failedConnectionCallback cfg e (c, w)))))"

text \<open>
  Every subscription created is registered under its id with the wrapper around its own
  \<open>onData\<close>, or is registered no more.
\<close>

definition tracked ::
  "(('u, 'app, 'err) process, 'err) client \<Rightarrow> (string \<times> (json \<Rightarrow> 'u \<Rightarrow> 'u)) list \<Rightarrow> bool" where
  "tracked c created \<longleftrightarrow>
     ids_below (registry c) \<and>
     (\<forall>e \<in> set created.
        decimal_value (fst e) \<le> last_id (registry c) \<and>
        (lookup (fst e) (registry c) = Some (onData_wrapper (snd e)) \<or>
         lookup (fst e) (registry c) = None))"

text \<open>
  The four phases of a subscription: the handshake is still running; it has failed with
  an error; the connection was acknowledged; no connection was ever made.
\<close>

definition handshake_pending :: "('u, 'app, 'err) subscription \<Rightarrow> bool" where
  "handshake_pending s \<longleftrightarrow>
     (case fst s of
        None \<Rightarrow> False
      | Some c \<Rightarrow>
          (conn_state c = Connecting \<or> conn_state c = Handshaking) \<and> failures c = [] \<and>
          succeeded c = 0 \<and> ''start'' \<notin> set (sent_types c) \<and> entries (registry c) = []) \<and>
     promise (snd s) = Pending \<and> timers (snd s) = []"

definition handshake_failed :: "'err failure \<Rightarrow> ('u, 'app, 'err) subscription \<Rightarrow> bool" where
  "handshake_failed e s \<longleftrightarrow>
     (case fst s of
        None \<Rightarrow> False
      | Some c \<Rightarrow>
          conn_state c = Failed \<and> failures c = [e] \<and> succeeded c = 0 \<and>
          ''start'' \<notin> set (sent_types c) \<and> entries (registry c) = []) \<and>
     promise (snd s) = Rejected e \<and> timers (snd s) = []"

definition established :: "(json \<Rightarrow> 'u \<Rightarrow> 'u) \<Rightarrow> ('u, 'app, 'err) subscription \<Rightarrow> bool" where
  "established onData s \<longleftrightarrow>
     (case fst s of
        None \<Rightarrow> False
      | Some c \<Rightarrow>
          conn_state c \<noteq> Connecting \<and> conn_state c \<noteq> Handshaking \<and> failures c = [] \<and>
          succeeded c = 1 \<and> ''start'' \<in> set (sent_types c) \<and>
          callbacks_are (onData_wrapper onData) c) \<and>
     (promise (snd s) = Pending \<or> promise (snd s) = Resolved) \<and>
     (\<forall>t \<in> set (timers (snd s)). snd t = 20)"

definition never_connected :: "('u, 'app, 'err) subscription \<Rightarrow> bool" where
  "never_connected s \<longleftrightarrow>
     fst s = None \<and> (\<exists>e. promise (snd s) = Rejected e) \<and> timers (snd s) = []"

definition subscription_inv :: "(json \<Rightarrow> 'u \<Rightarrow> 'u) \<Rightarrow> ('u, 'app, 'err) subscription \<Rightarrow> bool" where
  "subscription_inv onData s \<longleftrightarrow>
     handshake_pending s \<or> (\<exists>e. handshake_failed e s) \<or> established onData s \<or> never_connected s"

section \<open>Example values\<close>

text \<open>
  A host used to run the definitions on concrete inputs: documents are their own text,
  the instance counts the requests it has answered, and it listens on port 3000 unless
  its state is 0, in which case \<open>getPort\<close> offers port 4000.
\<close>

definition example_host :: "(string, json, nat, string) host" where
  "example_host =
     \<lparr>print = (\<lambda>d. d),
      JSON_stringify = (\<lambda>j. ''body''),
      inject = (\<lambda>req n. (JObj [(''data'', JNum (int n))], Suc n)),
      json_of = (\<lambda>r. r),
      address = (\<lambda>n. if n = 0 then AddressNull else AddressInfo 3000),
      getPort = (\<lambda>n. Inr 4000),
      listen = (\<lambda>p n. Inr (Suc n))\<rparr>"

definition no_opts :: client_opts where
  "no_opts = \<lparr>co_headers = None, co_url = None, co_cookies = None\<rparr>"

definition empty_url_opts :: client_opts where
  "empty_url_opts = \<lparr>co_headers = None, co_url = Some [], co_cookies = None\<rparr>"

text \<open>A subscription whose caller keeps the list of the payloads it was given.\<close>

definition example_subscription :: "(string, json list, string) subscribe_opts" where
  "example_subscription =
     \<lparr>so_query = QueryString ''subscription{onX}'', so_variables = None,
      so_initPayload = Some (StaticPayload (JObj [(''token'', JStr ''abc'')])),
      so_onData = (\<lambda>p u. u @ [p])\<rparr>"

definition example_config :: "((json list, nat, string) process, string) client_config" where
  "example_config = subscription_config example_host (\<lambda>i. i) example_subscription"

definition example_start :: "(json list, nat, string) subscription" where
  "example_start = subscribe example_host ''/graphql'' example_subscription 1 []"

definition ack_frame :: frame where
  "ack_frame = \<lparr>frame_id = None, frame_type = ''connection_ack'', frame_payload = None\<rparr>"

definition refusal_frame :: frame where
  "refusal_frame = \<lparr>frame_id = None, frame_type = ''connection_error'',
                    frame_payload = Some (JObj [(''message'', JStr ''denied'')])\<rparr>"

text \<open>The connection and the rest of the state once the server has acknowledged.\<close>

definition example_ready_client :: "((json list, nat, string) process, string) client" where
  "example_ready_client =
     \<lparr>uri = ''ws://localhost:3000/graphql'', conn_state = Ready,
      registry = \<lparr>last_id = 1, entries = [(''1'', onData_wrapper (\<lambda>p u. u @ [p]))]\<rparr>,
      outbox = [\<lparr>frame_id = None, frame_type = ''connection_init'',
                 frame_payload = Some (JObj [(''token'', JStr ''abc'')])\<rparr>,
                \<lparr>frame_id = Some ''1'', frame_type = ''start'',
                 frame_payload = Some (JObj [(''query'', JStr ''subscription{onX}''),
                                             (''variables'', JObj [])])\<rparr>],
      socket_open = True, socket_closes = 0, succeeded = 1, failures = []\<rparr>"

definition example_process :: "(json list, nat, string) process" where
  "example_process =
     \<lparr>promise = Pending, timers = [(0, 20)], now = 0, user = [], warnings = [], server = 1\<rparr>"



text \<open>
  Four subscriptions on the connection of the example: the one its connection callback
  creates, then \<open>a\<close> and \<open>b\<close>, of which \<open>a\<close> is cancelled, then \<open>c\<close>. Each \<open>onData\<close> records
  the payload under the name of its subscription.
\<close>

definition example_tag :: "string \<Rightarrow> json \<Rightarrow> json list \<Rightarrow> json list" where
  "example_tag k p u = u @ [JObj [(k, p)]]"

definition example_ops :: "json list client_op list" where
  "example_ops =
     [OpReceive SocketOpen, OpReceive (SocketMessage ack_frame),
      OpCreate ''subscription{a}'' (JObj []) (example_tag ''a''),
      OpCreate ''subscription{b}'' (JObj []) (example_tag ''b''),
      OpUnsubscribe ''2'',
      OpCreate ''subscription{c}'' (JObj []) (example_tag ''c'')]"

definition example_idle :: "(json list, nat, string) process" where
  "example_idle =
     \<lparr>promise = Pending, timers = [], now = 0, user = [], warnings = [], server = 1\<rparr>"

definition example_multiplexed :: "(json list, nat, string) tracked_client" where
  "example_multiplexed =
     client_run example_config example_ops
       (new_client ''ws://localhost:3000/graphql'', example_idle, [])"

text \<open>The request most recently injected by a call.\<close>

definition last_request :: "'a \<times> 'app world \<Rightarrow> inject_opts" where
  "last_request r = last (injected (snd r))"


section \<open>Requests built by query, mutate and batchQueries\<close>

lemma map_add_lookup:
  "(m1 ++ m2) = (\<lambda>k. case m2 k of Some v \<Rightarrow> Some v | None \<Rightarrow> m1 k)"
  by (rule ext) (simp add: map_add_def split: option.splits)

lemma query_last_url: "io_url (last_request (query h url q queryOptions w)) = url"
  by (simp add: query_def do_inject_def query_request_def last_request_def split: prod.splits)

lemma batchQueries_last_url: "io_url (last_request (batchQueries h url queries queryOptions w)) = url"
  by (simp add: batchQueries_def do_inject_def batch_request_def last_request_def split: prod.splits)

lemma decimal_3000: "decimal 3000 = ''3000''"
  by (simp add: decimal.simps digit_char_def)

lemma subscribe_uri:
  "fst (subscribe h url sopts a u) = Some c \<Longrightarrow> \<exists>port. uri c = ws_url port url"
  by (auto simp add: subscribe_def Let_def new_client_def
        split: server_address.splits sum.splits)

text \<open>
  C6: every call of \<open>query\<close> or \<open>mutate\<close> injects exactly one request: the requests
  injected so far grow by one, which is a POST to the configured url, whose payload is
  the serialised object with the fields \<open>query\<close> (the string as it is, or the printed
  document), \<open>variables\<close> (by default \<open>{}\<close>) and \<open>operationName\<close> (by default \<open>null\<close>). In
  its cookies a per-call entry wins over a global one; in its headers a per-call entry
  wins over a global one, which wins over the default content type. The promise resolves
  with the parsed body of the response to that request.
\<close>

theorem query_injects_one_post:
  "let qo = (case queryOptions of None \<Rightarrow> empty_query_options | Some given \<Rightarrow> given);
       req = \<lparr>io_method = ''POST'',
              io_url = client_url opts,
              io_cookies = (\<lambda>k. case (case qo_cookies qo of None \<Rightarrow> Map.empty | Some m \<Rightarrow> m) k of
                                   Some v \<Rightarrow> Some v
                                 | None \<Rightarrow> var_cookies w k),
              io_headers = (\<lambda>k. case (case qo_headers qo of None \<Rightarrow> Map.empty | Some m \<Rightarrow> m) k of
                                   Some v \<Rightarrow> Some v
                                 | None \<Rightarrow> (case var_headers w k of
                                              Some v \<Rightarrow> Some v
                                            | None \<Rightarrow> content_type_header k)),
              io_payload = JSON_stringify h
                 (JObj [(''query'', JStr (case q of QueryString s \<Rightarrow> s | QueryDocument d \<Rightarrow> print h d)),
                        (''variables'', (case qo_variables qo of None \<Rightarrow> JObj [] | Some v \<Rightarrow> v)),
                        (''operationName'',
                           (case qo_operationName qo of OpName n \<Rightarrow> JStr n | _ \<Rightarrow> JNull))])\<rparr>;
       answer = inject h req (app w);
       result = (json_of h (fst answer), w\<lparr>app := snd answer, injected := injected w @ [req]\<rparr>);
       C = fst (createMercuriusTestClient h a opts)
   in tc_query C q queryOptions w = result \<and> tc_mutate C q queryOptions w = result"
  unfolding Let_def createMercuriusTestClient_def
  by (simp add: query_def do_inject_def query_request_def query_body_def query_text_def
        or_default_def operation_name_json_def map_add_lookup
        split: prod.splits option.splits operation_name.splits)

text \<open>
  C8: the \<open>mutate\<close> property of the returned object is the function bound to \<open>query\<close>, so
  both give the same request and the same result on every document and every options.
\<close>

theorem mutate_is_query:
  "tc_mutate (fst (createMercuriusTestClient h a opts)) =
   tc_query (fst (createMercuriusTestClient h a opts))"
  by (simp add: createMercuriusTestClient_def Let_def)

text \<open>
  C9: after \<open>setHeaders(newHeaders)\<close> the requests of \<open>query\<close>, \<open>mutate\<close> and
  \<open>batchQueries\<close> take \<open>newHeaders\<close> as the global headers, and a call leaves them in
  place for the next one; likewise \<open>setCookies\<close>. The \<open>headers\<close> and \<open>cookies\<close> properties
  of the returned object still hold what the options gave at creation (or \<open>{}\<close>). Each
  setter leaves the other global as it was.
\<close>

theorem set_globals_used_not_exposed:
  "let C = fst (createMercuriusTestClient h a opts);
       wh = tc_setHeaders C newHeaders w;
       wc = tc_setCookies C newCookies w;
       qo = (case queryOptions of None \<Rightarrow> empty_query_options | Some given \<Rightarrow> given);
       hs = content_type_header ++ newHeaders ++ (case qo_headers qo of None \<Rightarrow> Map.empty | Some m \<Rightarrow> m);
       cs = newCookies ++ (case qo_cookies qo of None \<Rightarrow> Map.empty | Some m \<Rightarrow> m)
   in io_headers (last_request (tc_query C q queryOptions wh)) = hs
    \<and> io_headers (last_request (tc_mutate C q queryOptions wh)) = hs
    \<and> io_headers (last_request (tc_batchQueries C queries queryOptions wh)) = hs
    \<and> io_cookies (last_request (tc_query C q queryOptions wc)) = cs
    \<and> io_cookies (last_request (tc_mutate C q queryOptions wc)) = cs
    \<and> io_cookies (last_request (tc_batchQueries C queries queryOptions wc)) = cs
    \<and> var_headers (snd (tc_query C q queryOptions wh)) = newHeaders
    \<and> var_headers (snd (tc_batchQueries C queries queryOptions wh)) = newHeaders
    \<and> var_cookies (snd (tc_query C q queryOptions wc)) = newCookies
    \<and> var_cookies (snd (tc_batchQueries C queries queryOptions wc)) = newCookies
    \<and> tc_headers C = (case co_headers opts of None \<Rightarrow> Map.empty | Some m \<Rightarrow> m)
    \<and> tc_cookies C = (case co_cookies opts of None \<Rightarrow> Map.empty | Some m \<Rightarrow> m)
    \<and> var_cookies wh = var_cookies w
    \<and> var_headers wc = var_headers w"
  unfolding Let_def createMercuriusTestClient_def
  by (simp add: query_def batchQueries_def do_inject_def query_request_def batch_request_def
        last_request_def setHeaders_def setCookies_def initial_world_def or_default_def
        split: prod.splits option.splits)

text \<open>
  C10, as stated, fails when the url supplied is the empty string: the request then goes
  to \<open>/graphql\<close>, not to the path supplied.
\<close>

theorem empty_url_not_used:
  "io_url (last_request
     (tc_query (fst (createMercuriusTestClient example_host 1 empty_url_opts))
        (QueryString ''{a}'') None
        (snd (createMercuriusTestClient example_host 1 empty_url_opts))))
   \<noteq> the (co_url empty_url_opts)"
  by (simp add: createMercuriusTestClient_def Let_def query_def do_inject_def query_request_def
        last_request_def client_url_def example_host_def initial_world_def or_default_def
        empty_url_opts_def)

text \<open>
  C10, amended: when \<open>opts.url\<close> is omitted or empty, every request injected by \<open>query\<close>,
  \<open>mutate\<close> and \<open>batchQueries\<close> goes to \<open>/graphql\<close> and the WebSocket url of \<open>subscribe\<close>
  ends with \<open>/graphql\<close>; when a non-empty \<open>opts.url\<close> is supplied, both use that path.
\<close>

theorem url_default_and_use:
  "let url = (case co_url opts of
                None \<Rightarrow> ''/graphql''
              | Some given \<Rightarrow> (if given = [] then ''/graphql'' else given));
       C = fst (createMercuriusTestClient h a opts)
   in io_url (last_request (tc_query C q queryOptions w)) = url
    \<and> io_url (last_request (tc_mutate C q queryOptions w)) = url
    \<and> io_url (last_request (tc_batchQueries C queries queryOptions w)) = url
    \<and> (\<forall>c. fst (tc_subscribe C sopts a' u) = Some c \<longrightarrow>
          (\<exists>port. uri c = ''ws://localhost:'' @ decimal port @ url))"
proof -
  have u: "client_url opts =
      (case co_url opts of None \<Rightarrow> ''/graphql'' | Some given \<Rightarrow> (if given = [] then ''/graphql'' else given))"
    by (simp add: client_url_def)
  have s: "\<forall>c. fst (subscribe h url sopts a' u) = Some c \<longrightarrow>
          (\<exists>port. uri c = ''ws://localhost:'' @ decimal port @ url)" for url
    using subscribe_uri [of h url sopts a' u] by (simp add: ws_url_def)
  show ?thesis
    unfolding Let_def createMercuriusTestClient_def u [symmetric]
    using s by (simp add: query_last_url batchQueries_last_url)
qed

theorem url_default_and_use_witness:
  "fst (tc_subscribe (fst (createMercuriusTestClient example_host 1 no_opts))
          example_subscription 1 [])
     = Some (new_client ''ws://localhost:3000/graphql'')
   \<and> (\<exists>port. uri (new_client ''ws://localhost:3000/graphql''
                     :: ((json list, nat, string) process, string) client)
          = ''ws://localhost:'' @ decimal port @ ''/graphql'')"
  using url_default_and_use [of no_opts example_host 1 "QueryString ''{a}''" None
       "snd (createMercuriusTestClient example_host 1 no_opts)" "[]" example_subscription 1 "[]"]
  by (simp add: Let_def createMercuriusTestClient_def subscribe_def example_host_def ws_url_def
        decimal_3000 client_url_def no_opts_def)

section \<open>Identifiers of the Registry\<close>

lemma digit_value_digit_char: "d < 10 \<Longrightarrow> digit_value (digit_char d) = d"
proof -
  assume "d < 10"
  then have "d = 0 \<or> d = 1 \<or> d = 2 \<or> d = 3 \<or> d = 4 \<or> d = 5 \<or> d = 6 \<or> d = 7 \<or> d = 8 \<or> d = 9"
    by arith
  then show ?thesis
    by (elim disjE) (simp_all add: digit_value_def digit_char_def)
qed

lemma decimal_value_snoc: "decimal_value (s @ [c]) = 10 * decimal_value s + digit_value c"
  by (simp add: decimal_value_def)

lemma decimal_value_decimal: "decimal_value (decimal n) = n"
proof (induction n rule: decimal.induct)
  case (1 n)
  show ?case
  proof (cases "n < 10")
    case True
    then show ?thesis
      by (simp add: decimal.simps [of n] decimal_value_def digit_value_digit_char)
  next
    case False
    then have "decimal_value (decimal (n div 10)) = n div 10" using "1" by simp
    with False show ?thesis
      by (simp add: decimal.simps [of n] decimal_value_snoc digit_value_digit_char)
  qed
qed

lemma register_fst: "fst (register cb r) = decimal (Suc (last_id r))"
  by (simp add: register_def Let_def)

lemma register_last_id: "last_id (snd (register cb r)) = Suc (last_id r)"
  by (simp add: register_def Let_def)

lemma register_ids: "registered_ids (snd (register cb r)) = registered_ids r @ [decimal (Suc (last_id r))]"
  by (simp add: register_def Let_def registered_ids_def)

lemma allocated_values:
  "sorted_wrt (<) (map decimal_value (allocated r ops))
   \<and> (\<forall>v \<in> set (map decimal_value (allocated r ops)). last_id r < v)"
proof (induction r ops rule: allocated.induct)
  case (1 r)
  then show ?case by simp
next
  case (2 r cb ops)
  then show ?case
    by (auto simp add: register_fst register_last_id decimal_value_decimal)
next
  case (3 r i ops)
  then show ?case by (simp add: remove_id_def)
next
  case (4 r ops)
  then show ?case by (simp add: clear_def)
qed

lemma ids_below_step: "ids_below r \<Longrightarrow> ids_below (registry_step r op)"
proof (cases op)
  case (Register cb)
  assume a: "ids_below r"
  then have "decimal (Suc (last_id r)) \<notin> set (registered_ids r)"
    by (auto simp: ids_below_def decimal_value_decimal)
  with a show ?thesis using Register
    by (auto simp: ids_below_def register_ids register_last_id decimal_value_decimal le_SucI)
next
  case (Remove i)
  assume "ids_below r"
  then show ?thesis using Remove
    by (auto simp: ids_below_def remove_id_def registered_ids_def distinct_map_filter)
next
  case Clear
  assume "ids_below r"
  then show ?thesis using Clear by (simp add: ids_below_def clear_def registered_ids_def)
qed

lemma ids_below_foldl: "ids_below r \<Longrightarrow> ids_below (foldl registry_step r ops)"
  by (induction ops arbitrary: r) (simp_all add: ids_below_step)

lemma ids_from_allocated:
  "set (registered_ids (foldl registry_step r ops)) \<subseteq> set (registered_ids r) \<union> set (allocated r ops)"
proof (induction r ops rule: allocated.induct)
  case (1 r)
  then show ?case by simp
next
  case (2 r cb ops)
  then show ?case by (auto simp: register_ids register_fst)
next
  case (3 r i ops)
  then show ?case by (auto simp: remove_id_def registered_ids_def)
next
  case (4 r ops)
  then show ?case by (auto simp: clear_def registered_ids_def)
qed

text \<open>
  C7: after any sequence of \<open>register\<close>, \<open>remove\<close> and \<open>clear\<close> on the Registry of a
  connection, no identifier is registered twice; every registered identifier is one that
  \<open>register\<close> returned; \<open>register\<close> never returned the same identifier twice, and the
  identifiers it returned are strictly increasing as numbers; the next identifier is
  registered nowhere and is greater than every identifier still registered.
\<close>

theorem registry_ids_unique_increasing:
  "distinct (registered_ids (registry_run ops))
   \<and> set (registered_ids (registry_run ops)) \<subseteq> set (allocated empty_registry ops)
   \<and> distinct (allocated empty_registry ops)
   \<and> sorted_wrt (<) (map decimal_value (allocated empty_registry ops))
   \<and> fst (register cb (registry_run ops)) \<notin> set (registered_ids (registry_run ops))
   \<and> (\<forall>k \<in> set (registered_ids (registry_run ops)).
         decimal_value k < decimal_value (fst (register cb (registry_run ops))))"
proof -
  have e: "ids_below (empty_registry :: 'a registry)"
    by (simp add: ids_below_def empty_registry_def registered_ids_def)
  have b: "ids_below (registry_run ops)"
    unfolding registry_run_def by (rule ids_below_foldl [OF e])
  have s: "sorted_wrt (<) (map decimal_value (allocated (empty_registry :: 'a registry) ops))"
    by (simp add: allocated_values)
  have d: "distinct (map decimal_value (allocated (empty_registry :: 'a registry) ops))"
    using s by (simp add: strict_sorted_iff)
  have f: "\<forall>k \<in> set (registered_ids (registry_run ops)).
         decimal_value k < decimal_value (fst (register cb (registry_run ops)))"
    using b by (auto simp: ids_below_def register_fst decimal_value_decimal)
  then have n: "fst (register cb (registry_run ops)) \<notin> set (registered_ids (registry_run ops))"
    by auto
  have i: "set (registered_ids (registry_run ops)) \<subseteq> set (allocated empty_registry ops)"
    using ids_from_allocated [of empty_registry ops]
    by (simp add: registry_run_def empty_registry_def registered_ids_def)
  show ?thesis using b s d f n i by (simp add: ids_below_def distinct_map)
qed

theorem registry_ids_unique_increasing_witness:
  "registered_ids (registry_run [Register (0::nat), Register 1, Remove ''1'', Register 2]) = [''2'', ''3'']
   \<and> fst (register (3::nat) (registry_run [Register 0, Register 1, Remove ''1'', Register 2])) = ''4''
   \<and> decimal_value ''2'' < decimal_value ''4'' \<and> decimal_value ''3'' < decimal_value ''4''"
proof -
  have e: "registered_ids (registry_run [Register (0::nat), Register 1, Remove ''1'', Register 2]) = [''2'', ''3'']"
    by (simp add: registry_run_def register_def remove_id_def registered_ids_def empty_registry_def
          Let_def decimal.simps digit_char_def)
  have f: "fst (register (3::nat) (registry_run [Register 0, Register 1, Remove ''1'', Register 2])) = ''4''"
    by (simp add: registry_run_def register_def remove_id_def registered_ids_def empty_registry_def
          Let_def decimal.simps digit_char_def)
  from registry_ids_unique_increasing [of "[Register (0::nat), Register 1, Remove ''1'', Register 2]" 3]
  show ?thesis unfolding e f by simp
qed

section \<open>Closing a connection\<close>

text \<open>
  C5: \<open>close()\<close> twice is \<open>close()\<close> once: the second call changes nothing, so it asks the
  socket to close no second time. \<open>close()\<close> sends no frame, empties the Registry and
  leaves no open socket. The \<open>unsubscribe\<close> of the handle is \<open>close()\<close> on the connection, and
  is idempotent as well. Both are total functions: no call throws.
\<close>

theorem close_idempotent:
  "close (close c) = close c
   \<and> socket_closes (close (close c)) = socket_closes (close c)
   \<and> outbox (close c) = outbox c
   \<and> registered_ids (registry (close c)) = []
   \<and> \<not> socket_open (close c)
   \<and> handle_unsubscribe (Some c, w) = (Some (close c), w)
   \<and> handle_unsubscribe (handle_unsubscribe (Some c, w)) = handle_unsubscribe (Some c, w)"
  by (simp add: close_def clear_def registered_ids_def handle_unsubscribe_def)

section \<open>Running the example\<close>

lemmas run_defs =
  run_def step_def receive_def subscribe_def Let_def example_host_def new_client_def
  handle_open_def handle_handshaking_def handle_ready_def subscription_config_def
  example_subscription_def example_config_def example_start_def or_default_def sendMessage_def
  createSubscription_def register_def empty_registry_def decimal.simps digit_char_def
  setTimeout_def ws_url_def ack_frame_def refusal_frame_def data_frame_def fail_handshake_def
  reject_def resolve_def fire_timer_def handle_unsubscribe_def close_def clear_def query_text_def
  sent_types_def registered_ids_def lookup_def onData_wrapper_def

lemma example_handshaking_eq:
  "run example_config [Socket SocketOpen] example_start =
   (Some \<lparr>uri = ''ws://localhost:3000/graphql'', conn_state = Handshaking,
          registry = \<lparr>last_id = 0, entries = []\<rparr>,
          outbox = [\<lparr>frame_id = None, frame_type = ''connection_init'',
                     frame_payload = Some (JObj [(''token'', JStr ''abc'')])\<rparr>],
          socket_open = True, socket_closes = 0, succeeded = 0, failures = []\<rparr>,
    \<lparr>promise = Pending, timers = [], now = 0, user = [], warnings = [], server = 1\<rparr>)"
  by (simp add: run_defs)

lemma example_ready:
  "run example_config [Socket SocketOpen, Socket (SocketMessage ack_frame)] example_start =
   (Some example_ready_client, example_process)"
  by (simp add: run_defs example_ready_client_def example_process_def)

lemma example_due_eq:
  "run example_config [Socket SocketOpen, Socket (SocketMessage ack_frame), Elapse 20] example_start =
   (Some example_ready_client, example_process\<lparr>now := 20\<rparr>)"
  by (simp add: run_defs example_ready_client_def example_process_def)


section \<open>The phases of a subscription\<close>

lemma subscribe_inv: "subscription_inv (so_onData sopts) (subscribe h url sopts a u)"
  by (auto simp: subscription_inv_def handshake_pending_def never_connected_def subscribe_def
        Let_def new_client_def sent_types_def empty_registry_def reject_def
        split: server_address.splits sum.splits)

lemma fail_handshake_cfg:
  "fail_handshake (subscription_config h topic sopts) e (c, w) =
     (c\<lparr>conn_state := Failed, failures := failures c @ [e]\<rparr>, reject e w)"
  by (simp add: fail_handshake_def subscription_config_def)

lemma connectionCallback_cfg:
  "conn_state c = Ready \<Longrightarrow>
   connectionCallback (subscription_config h topic sopts) (c, w) =
     (sendMessage \<lparr>frame_id = Some (decimal (Suc (last_id (registry c)))), frame_type = ''start'',
                   frame_payload = Some (JObj [(''query'', JStr (query_text h (so_query sopts))),
                                               (''variables'', or_default (so_variables sopts) (JObj []))])\<rparr>
        (c\<lparr>registry := snd (register (onData_wrapper (so_onData sopts)) (registry c))\<rparr>),
      setTimeout 20 w)"
  by (simp add: subscription_config_def createSubscription_def register_def Let_def)

lemma pending_step:
  assumes "handshake_pending s"
  shows "handshake_pending (step (subscription_config h topic sopts) ev s)
       \<or> (\<exists>e. handshake_failed e (step (subscription_config h topic sopts) ev s))
       \<or> (established (so_onData sopts) (step (subscription_config h topic sopts) ev s)
          \<and> promise (snd (step (subscription_config h topic sopts) ev s)) = Pending
          \<and> timers (snd (step (subscription_config h topic sopts) ev s)) = [(now (snd s), 20)])"
proof (cases ev)
  case (Socket e)
  from assms obtain c where c: "fst s = Some c" 
    by (auto simp: handshake_pending_def split: option.splits)
  show ?thesis
  proof (cases e)
    case SocketOpen
    then show ?thesis using assms c Socket
      by (auto simp: handshake_pending_def handshake_failed_def step_def receive_def handle_open_def
          fail_handshake_cfg sendMessage_def sent_types_def reject_def
          split: init_payload.splits sum.splits)
  next
    case (SocketMessage f)
    then show ?thesis using assms c Socket
      by (auto simp: handshake_pending_def handshake_failed_def established_def step_def receive_def
          handle_handshaking_def fail_handshake_cfg connectionCallback_cfg sendMessage_def
          sent_types_def reject_def setTimeout_def callbacks_are_def register_def Let_def)
  next
    case SocketMalformed
    then show ?thesis using assms c Socket
      by (auto simp: handshake_pending_def step_def receive_def)
  next
    case SocketClose
    then show ?thesis using assms c Socket
      by (auto simp: handshake_pending_def handshake_failed_def step_def receive_def
          fail_handshake_cfg sent_types_def reject_def)
  next
    case SocketError
    then show ?thesis using assms c Socket
      by (auto simp: handshake_pending_def handshake_failed_def step_def receive_def
          fail_handshake_cfg sent_types_def reject_def)
  qed
next
  case (Elapse d)
  then show ?thesis using assms by (auto simp: handshake_pending_def step_def)
next
  case TimerFire
  then show ?thesis using assms by (auto simp: handshake_pending_def step_def fire_timer_def)
next
  case Unsubscribe
  then show ?thesis using assms by (auto simp: handshake_pending_def step_def)
qed

lemma failed_step:
  assumes "handshake_failed e s"
  shows "handshake_failed e (step (subscription_config h topic sopts) ev s)"
proof (cases ev)
  case (Socket x)
  from assms obtain c where c: "fst s = Some c" 
    by (auto simp: handshake_failed_def split: option.splits)
  show ?thesis using assms c Socket
    by (cases x) (auto simp: handshake_failed_def step_def receive_def sent_types_def)
next
  case (Elapse d)
  then show ?thesis using assms by (auto simp: handshake_failed_def step_def)
next
  case TimerFire
  then show ?thesis using assms by (auto simp: handshake_failed_def step_def fire_timer_def)
next
  case Unsubscribe
  then show ?thesis using assms by (auto simp: handshake_failed_def step_def)
qed

lemma never_step:
  assumes "never_connected s"
  shows "never_connected (step cfg ev s)"
  using assms by (cases ev) (auto simp: never_connected_def step_def fire_timer_def)


lemma callbacks_are_lookup:
  "callbacks_are cb c \<Longrightarrow> lookup i (registry c) = Some f \<Longrightarrow> f = cb"
proof -
  assume a: "callbacks_are cb c" and "lookup i (registry c) = Some f"
  then have "(i, f) \<in> set (entries (registry c))"
    by (simp add: lookup_def map_of_SomeD)
  with a show ?thesis by (force simp: callbacks_are_def)
qed

lemma callbacks_are_conn_state:
  "callbacks_are cb (c\<lparr>conn_state := x\<rparr>) = callbacks_are cb c"
  by (simp add: callbacks_are_def)

lemma callbacks_are_remove:
  "callbacks_are cb c \<Longrightarrow> callbacks_are cb (c\<lparr>registry := remove_id i (registry c)\<rparr>)"
  by (auto simp: callbacks_are_def remove_id_def)

lemma handle_ready_cfg:
  assumes "callbacks_are (onData_wrapper onData) c" and "conn_state c = Ready"
  shows "case handle_ready cfg f (c, w) of
           (c', w') \<Rightarrow>
             (conn_state c' = Ready \<or> conn_state c' = Failed) \<and> failures c' = failures c \<and>
             succeeded c' = succeeded c \<and> outbox c' = outbox c \<and>
             callbacks_are (onData_wrapper onData) c' \<and>
             promise w' = promise w \<and> timers w' = timers w \<and> now w' = now w"
  using assms callbacks_are_remove [OF assms(1)]
  by (auto simp: handle_ready_def onData_wrapper_def callbacks_are_conn_state
        split: option.splits dest!: callbacks_are_lookup [OF assms(1)])

lemma established_step:
  assumes "established (so_onData sopts) s"
  shows "established (so_onData sopts) (step (subscription_config h topic sopts) ev s)"
proof (cases ev)
  case (Socket x)
  from assms obtain c where c: "fst s = Some c" 
    by (auto simp: established_def split: option.splits)
  show ?thesis
  proof (cases x)
    case SocketOpen
    then show ?thesis using assms c Socket
      by (auto simp: established_def step_def receive_def)
  next
    case (SocketMessage f)
    show ?thesis
    proof (cases "conn_state c = Ready")
      case True
      from assms c have cb: "callbacks_are (onData_wrapper (so_onData sopts)) c"
        by (simp add: established_def)
      from handle_ready_cfg [OF cb True, where cfg = "subscription_config h topic sopts" and f = f and w = "snd s"]
      show ?thesis using assms c Socket SocketMessage True
        by (auto simp: established_def step_def receive_def sent_types_def split: prod.splits)
    next
      case False
      then show ?thesis using assms c Socket SocketMessage
        by (auto simp: established_def step_def receive_def)
    qed
  next
    case SocketMalformed
    then show ?thesis using assms c Socket
      by (auto simp: established_def step_def receive_def)
  next
    case SocketClose
    then show ?thesis using assms c Socket
      by (auto simp: established_def step_def receive_def sent_types_def callbacks_are_def)
  next
    case SocketError
    then show ?thesis using assms c Socket
      by (auto simp: established_def step_def receive_def sent_types_def callbacks_are_def)
  qed
next
  case (Elapse d)
  then show ?thesis using assms by (auto simp: established_def step_def split: option.splits)
next
  case TimerFire
  then show ?thesis using assms
    by (auto simp: established_def step_def fire_timer_def resolve_def split: option.splits list.splits)
next
  case Unsubscribe
  then show ?thesis using assms
    by (auto simp: established_def step_def handle_unsubscribe_def close_def sent_types_def
          callbacks_are_def clear_def split: option.splits)
qed

lemma inv_step:
  "subscription_inv (so_onData sopts) s \<Longrightarrow>
   subscription_inv (so_onData sopts) (step (subscription_config h topic sopts) ev s)"
  unfolding subscription_inv_def
  using pending_step [of s h topic sopts ev] failed_step [of _ s h topic sopts ev]
    established_step [of sopts s h topic ev] never_step [of s "subscription_config h topic sopts" ev]
  by blast

lemma inv_run:
  "subscription_inv (so_onData sopts) s \<Longrightarrow>
   subscription_inv (so_onData sopts) (run (subscription_config h topic sopts) evs s)"
  unfolding run_def
  by (induction evs arbitrary: s) (simp_all add: inv_step)


lemma inv_reachable:
  "subscription_inv (so_onData sopts)
     (run (subscription_config h topic sopts) evs (subscribe h url sopts a u))"
  by (rule inv_run [OF subscribe_inv])

lemma established_promise:
  assumes "established (so_onData sopts) s" and "ev \<noteq> TimerFire"
  shows "promise (snd (step (subscription_config h topic sopts) ev s)) = promise (snd s)"
proof (cases ev)
  case (Socket x)
  from assms obtain c where c: "fst s = Some c" 
    by (auto simp: established_def split: option.splits)
  show ?thesis
  proof (cases x)
    case (SocketMessage f)
    show ?thesis
    proof (cases "conn_state c = Ready")
      case True
      from assms c have cb: "callbacks_are (onData_wrapper (so_onData sopts)) c"
        by (simp add: established_def)
      from handle_ready_cfg [OF cb True, where cfg = "subscription_config h topic sopts" and f = f and w = "snd s"]
      show ?thesis using assms c Socket SocketMessage True
        by (auto simp: established_def step_def receive_def split: prod.splits)
    next
      case False
      then show ?thesis using assms c Socket SocketMessage
        by (auto simp: established_def step_def receive_def)
    qed
  qed (use assms c Socket in \<open>auto simp: established_def step_def receive_def\<close>)
next
  case (Elapse d)
  then show ?thesis by (simp add: step_def)
next
  case TimerFire
  then show ?thesis using assms by simp
next
  case Unsubscribe
  then show ?thesis by (simp add: step_def handle_unsubscribe_def)
qed

lemma timer_resolves:
  assumes "promise (snd s) \<noteq> Resolved" and "promise (snd (step cfg TimerFire s)) = Resolved"
  shows "\<exists>t ts. timers (snd s) = t # ts \<and> fst t + snd t \<le> now (snd s)"
  using assms
  by (auto simp: step_def fire_timer_def resolve_def split: list.splits if_splits)

section \<open>Delivery of data\<close>

text \<open>
  On any connection in \<open>Ready\<close>, whatever its Registry holds, a "data" frame reaches the
  callback registered under its id and no other; with no such entry it is discarded.
\<close>

lemma data_frame_routed_by_id:
  "conn_state c = Ready \<Longrightarrow>
   receive cfg (SocketMessage (data_frame i p)) (c, w) =
     (case lookup i (registry c) of
        None \<Rightarrow> (c, w)
      | Some cb \<Rightarrow> (c, cb \<lparr>pa_topic = topic_of cfg i, pa_payload = p\<rparr> w))"
  by (simp add: receive_def handle_ready_def data_frame_def split: option.splits)

section \<open>Callbacks stay with their identifiers\<close>

lemma lookup_register_other:
  "decimal_value i \<le> last_id r \<Longrightarrow> lookup i (snd (register cb r)) = lookup i r"
proof -
  assume a: "decimal_value i \<le> last_id r"
  have "i \<noteq> decimal (Suc (last_id r))"
  proof
    assume "i = decimal (Suc (last_id r))"
    then have "decimal_value i = Suc (last_id r)" by (simp add: decimal_value_decimal)
    with a show False by simp
  qed
  then show ?thesis
    by (simp add: lookup_def register_def Let_def map_add_def split: option.splits)
qed

lemma lookup_register_new:
  assumes "ids_below r"
  shows "lookup (fst (register cb r)) (snd (register cb r)) = Some cb"
proof -
  have "decimal (Suc (last_id r)) \<notin> set (registered_ids r)"
    using assms by (auto simp: ids_below_def decimal_value_decimal)
  then have "map_of (entries r) (decimal (Suc (last_id r))) = None"
    by (simp add: map_of_eq_None_iff registered_ids_def)
  then show ?thesis
    by (simp add: lookup_def register_def Let_def map_add_def)
qed

lemma lookup_remove_id: "lookup i (remove_id j r) = (if i = j then None else lookup i r)"
proof -
  have "map_of (filter (\<lambda>e. fst e \<noteq> j) xs) i = (if i = j then None else map_of xs i)" for xs :: "(string \<times> 'a) list"
    by (induction xs) auto
  then show ?thesis by (simp add: lookup_def remove_id_def)
qed

lemma registry_grows_refl: "registry_grows r r"
  by (simp add: registry_grows_def)

lemma registry_grows_register: "registry_grows r (snd (register cb r))"
  using ids_below_step [of r "Register cb"]
  by (simp add: registry_grows_def register_last_id lookup_register_other)

lemma registry_grows_remove: "registry_grows r (remove_id j r)"
  using ids_below_step [of r "Remove j"]
  by (simp add: registry_grows_def lookup_remove_id) (simp add: remove_id_def)

lemma registry_grows_clear: "registry_grows r (clear r)"
  using ids_below_step [of r Clear]
  by (simp add: registry_grows_def) (simp add: clear_def lookup_def)

lemma createSubscription_grows:
  "createSubscription q v cb c = Inr r \<Longrightarrow> registry_grows (registry c) (registry (snd r))"
  using registry_grows_register [of "registry c" cb]
  by (auto simp: createSubscription_def sendMessage_def split: if_splits prod.splits)

lemma unsubscribe_grows: "registry_grows (registry c) (registry (unsubscribe i c))"
  by (simp add: unsubscribe_def sendMessage_def registry_grows_refl registry_grows_remove)

lemma close_grows: "registry_grows (registry c) (registry (close c))"
  by (simp add: close_def registry_grows_clear)

lemma fail_handshake_grows:
  "respects_registry cfg \<Longrightarrow> registry c0 = registry c \<Longrightarrow>
   registry_grows (registry c) (registry (fst (fail_handshake cfg e (c0, w))))"
proof -
  assume r: "respects_registry cfg" and e: "registry c0 = registry c"
  from r have "registry_grows (registry (c0\<lparr>conn_state := Failed, failures := failures c0 @ [e]\<rparr>))
     (registry (fst (failedConnectionCallback cfg e (c0\<lparr>conn_state := Failed, failures := failures c0 @ [e]\<rparr>, w))))"
    unfolding respects_registry_def by blast
  with e show ?thesis by (simp add: fail_handshake_def)
qed

lemma handle_ready_grows: "registry_grows (registry c) (registry (fst (handle_ready cfg f (c, w))))"
  by (auto simp: handle_ready_def registry_grows_refl registry_grows_remove split: option.splits)

lemma handle_handshaking_grows:
  assumes "respects_registry cfg"
  shows "registry_grows (registry c) (registry (fst (handle_handshaking cfg f (c, w))))"
proof -
  from assms have "registry_grows (registry (c\<lparr>conn_state := Ready, succeeded := Suc (succeeded c)\<rparr>))
     (registry (fst (connectionCallback cfg (c\<lparr>conn_state := Ready, succeeded := Suc (succeeded c)\<rparr>, w))))"
    unfolding respects_registry_def by blast
  then show ?thesis
    using fail_handshake_grows [OF assms, of c c]
    by (simp add: handle_handshaking_def registry_grows_refl)
qed

lemma handle_open_grows:
  assumes "respects_registry cfg"
  shows "registry_grows (registry c) (registry (fst (handle_open cfg (c, w))))"
  using fail_handshake_grows [OF assms, of c c]
  by (auto simp: handle_open_def sendMessage_def registry_grows_refl
        split: init_payload.splits sum.splits)

lemma receive_grows:
  assumes "respects_registry cfg"
  shows "registry_grows (registry c) (registry (fst (receive cfg ev (c, w))))"
proof (cases ev)
  case SocketOpen
  then show ?thesis using handle_open_grows [OF assms]
    by (simp add: receive_def registry_grows_refl)
next
  case (SocketMessage f)
  then show ?thesis
    using handle_handshaking_grows [OF assms, of c f w] handle_ready_grows [of c cfg f w]
    by (simp add: receive_def registry_grows_refl)
next
  case SocketMalformed
  then show ?thesis by (simp add: receive_def registry_grows_refl)
next
  case SocketClose
  then show ?thesis
    using fail_handshake_grows [OF assms, of "c\<lparr>socket_open := False\<rparr>" c]
    by (simp add: receive_def registry_grows_refl)
next
  case SocketError
  then show ?thesis using fail_handshake_grows [OF assms, of c c]
    by (simp add: receive_def registry_grows_refl)
qed

lemma tracked_grows:
  "tracked c created \<Longrightarrow> registry_grows (registry c) (registry c') \<Longrightarrow> tracked c' created"
proof -
  assume t: "tracked c created" and g: "registry_grows (registry c) (registry c')"
  have "decimal_value (fst e) \<le> last_id (registry c') \<and>
        (lookup (fst e) (registry c') = Some (onData_wrapper (snd e)) \<or>
         lookup (fst e) (registry c') = None)" if e: "e \<in> set created" for e
  proof -
    from t e have d: "decimal_value (fst e) \<le> last_id (registry c)"
      and l: "lookup (fst e) (registry c) = Some (onData_wrapper (snd e)) \<or>
              lookup (fst e) (registry c) = None"
      by (simp_all add: tracked_def)
    from g d have "lookup (fst e) (registry c') = lookup (fst e) (registry c) \<or>
                   lookup (fst e) (registry c') = None"
      by (simp add: registry_grows_def)
    with l have "lookup (fst e) (registry c') = Some (onData_wrapper (snd e)) \<or>
                 lookup (fst e) (registry c') = None" by auto
    moreover from g d have "decimal_value (fst e) \<le> last_id (registry c')"
      by (simp add: registry_grows_def)
    ultimately show ?thesis by simp
  qed
  moreover from t g have "ids_below (registry c')" by (simp add: tracked_def registry_grows_def)
  ultimately show ?thesis by (simp add: tracked_def)
qed

lemma tracked_step:
  assumes "respects_registry cfg" and "tracked c created"
    and "client_step cfg (c, w, created) op = (c', w', created')"
  shows "tracked c' created'"
proof (cases op)
  case (OpCreate q v onData)
  show ?thesis
  proof (cases "createSubscription q v (onData_wrapper onData) c")
    case (Inl e)
    then show ?thesis using assms OpCreate by simp
  next
    case (Inr r)
    then have c': "c' = snd r" and cr: "created' = created @ [(fst r, onData)]"
      using assms(3) OpCreate by simp_all
    from Inr have g: "registry_grows (registry c) (registry (snd r))"
      by (rule createSubscription_grows)
    with assms(2) have t: "tracked (snd r) created" by (rule tracked_grows)
    from Inr have r: "fst r = fst (register (onData_wrapper onData) (registry c))"
      "registry (snd r) = snd (register (onData_wrapper onData) (registry c))"
      by (auto simp: createSubscription_def sendMessage_def split: if_splits prod.splits)
    from assms(2) have "ids_below (registry c)" by (simp add: tracked_def)
    then have "lookup (fst r) (registry (snd r)) = Some (onData_wrapper onData)"
      unfolding r by (rule lookup_register_new)
    moreover have "decimal_value (fst r) \<le> last_id (registry (snd r))"
      unfolding r by (simp add: register_fst register_last_id decimal_value_decimal)
    ultimately show ?thesis using t unfolding c' cr
      by (simp add: tracked_def)
  qed
next
  case (OpUnsubscribe i)
  then have "c' = unsubscribe i c" "created' = created" using assms(3) by simp_all
  then show ?thesis using tracked_grows [OF assms(2) unsubscribe_grows] by simp
next
  case (OpReceive ev)
  then have "c' = fst (receive cfg ev (c, w))" "created' = created"
    using assms(3) by (auto split: prod.splits)
  then show ?thesis using tracked_grows [OF assms(2) receive_grows [OF assms(1)]] by simp
next
  case OpClose
  then have "c' = close c" "created' = created" using assms(3) by simp_all
  then show ?thesis using tracked_grows [OF assms(2) close_grows] by simp
qed

lemma tracked_run:
  assumes "respects_registry cfg"
  shows "tracked c created \<Longrightarrow> client_run cfg ops (c, w, created) = (c', w', created') \<Longrightarrow>
         tracked c' created'"
proof (induction ops arbitrary: c w created)
  case Nil
  then show ?case by (simp add: client_run_def)
next
  case (Cons op ops)
  obtain c1 w1 cr1 where s: "client_step cfg (c, w, created) op = (c1, w1, cr1)"
    by (metis prod_cases3)
  from tracked_step [OF assms Cons.prems(1) s] have "tracked c1 cr1" .
  moreover from Cons.prems(2) s have "client_run cfg ops (c1, w1, cr1) = (c', w', created')"
    by (simp add: client_run_def)
  ultimately show ?case by (rule Cons.IH)
qed

lemma tracked_new: "tracked (new_client u) []"
  by (simp add: tracked_def new_client_def ids_below_def empty_registry_def registered_ids_def)

lemma subscription_config_respects: "respects_registry (subscription_config h topic sopts)"
proof -
  have "registry_grows (registry c)
          (registry (fst (connectionCallback (subscription_config h topic sopts) (c, w))))" for c w
    using createSubscription_grows [of "query_text h (so_query sopts)" "or_default (so_variables sopts) (JObj [])"
        "onData_wrapper (so_onData sopts)" c]
    by (auto simp: subscription_config_def registry_grows_refl split: sum.splits)
  then show ?thesis
    by (simp add: respects_registry_def) (simp add: subscription_config_def registry_grows_refl)
qed

text \<open>In the example, \<open>2\<close> was cancelled and \<open>1\<close>, \<open>3\<close> and \<open>4\<close> are registered.\<close>

lemma example_multiplexed_facts:
  "conn_state (fst example_multiplexed) = Ready"
  "registered_ids (registry (fst example_multiplexed)) = [''1'', ''3'', ''4'']"
  "map fst (snd (snd example_multiplexed)) = [''2'', ''3'', ''4'']"
  "(''3'', example_tag ''b'') \<in> set (snd (snd example_multiplexed))"
  by (simp_all add: example_multiplexed_def example_ops_def example_idle_def client_run_def run_defs unsubscribe_def
        remove_id_def)

text \<open>
  C1: take any connection whose callbacks respect the Registry and any sequence of
  \<open>createSubscription\<close> calls made the way \<open>subscribe\<close> makes them, \<open>unsubscribe\<close> calls,
  socket events and \<open>close()\<close>. If the connection is \<open>Ready\<close> and a subscription created in
  that sequence is still registered, a "data" frame tagged with its id applies the
  \<open>onData\<close> of that subscription once, to the payload of the frame, and changes nothing
  else: the connection stays as it was and no \<open>onData\<close> of another subscription runs.
  Likewise in every state \<open>subscribe\<close> itself can reach: a "data" frame for a registered id
  applies the \<open>onData\<close> given to \<open>subscribe\<close> to the payload and changes nothing else.
\<close>

theorem data_frame_invokes_onData:
  "(respects_registry cfg \<and> client_run cfg ops (new_client u0, w0, []) = (c, w, created) \<and>
    conn_state c = Ready \<and> (i, onData) \<in> set created \<and> i \<in> set (registered_ids (registry c)) \<longrightarrow>
      receive cfg (SocketMessage (data_frame i p)) (c, w') = (c, w'\<lparr>user := onData p (user w')\<rparr>))
   \<and> (s = run (subscription_config h topic sopts) evs (subscribe h url sopts a u) \<and>
      fst s = Some c \<and> conn_state c = Ready \<and> i \<in> set (registered_ids (registry c)) \<longrightarrow>
      step (subscription_config h topic sopts) (Socket (SocketMessage (data_frame i p))) s =
        (Some c, (snd s)\<lparr>user := so_onData sopts p (user (snd s))\<rparr>))"
proof (intro conjI impI)
  assume a: "respects_registry cfg \<and> client_run cfg ops (new_client u0, w0, []) = (c, w, created) \<and>
    conn_state c = Ready \<and> (i, onData) \<in> set created \<and> i \<in> set (registered_ids (registry c))"
  then have r: "client_run cfg ops (new_client u0, w0, []) = (c, w, created)" by simp
  from a tracked_run [OF _ tracked_new r] have t: "tracked c created" by simp
  have "lookup i (registry c) \<noteq> None"
    using a by (simp add: lookup_def map_of_eq_None_iff registered_ids_def)
  with t a have "lookup i (registry c) = Some (onData_wrapper onData)"
    by (force simp: tracked_def)
  with a show "receive cfg (SocketMessage (data_frame i p)) (c, w') = (c, w'\<lparr>user := onData p (user w')\<rparr>)"
    by (simp add: receive_def handle_ready_def data_frame_def onData_wrapper_def)
next
  assume a: "s = run (subscription_config h topic sopts) evs (subscribe h url sopts a u) \<and>
      fst s = Some c \<and> conn_state c = Ready \<and> i \<in> set (registered_ids (registry c))"
  then have fs: "fst s = Some c" and rd: "conn_state c = Ready"
    and reg: "i \<in> set (registered_ids (registry c))"
    and se: "s = run (subscription_config h topic sopts) evs (subscribe h url sopts a u)"
    by blast+
  have "subscription_inv (so_onData sopts) s"
    unfolding se by (rule inv_reachable)
  with fs rd have cb: "callbacks_are (onData_wrapper (so_onData sopts)) c"
    by (auto simp: subscription_inv_def handshake_pending_def handshake_failed_def
          established_def never_connected_def)
  obtain f where f: "lookup i (registry c) = Some f"
  proof -
    have "map_of (entries (registry c)) i \<noteq> None"
      using reg by (simp add: map_of_eq_None_iff registered_ids_def)
    then show ?thesis using that by (auto simp: lookup_def)
  qed
  with cb have "f = onData_wrapper (so_onData sopts)" by (rule callbacks_are_lookup)
  with f fs rd show "step (subscription_config h topic sopts) (Socket (SocketMessage (data_frame i p))) s =
        (Some c, (snd s)\<lparr>user := so_onData sopts p (user (snd s))\<rparr>)"
    by (simp add: step_def receive_def handle_ready_def data_frame_def onData_wrapper_def)
qed

theorem data_frame_invokes_onData_witness:
  "receive example_config (SocketMessage (data_frame ''3'' (JObj [(''onX'', JNum 1)])))
     (fst example_multiplexed, example_process)
   = (fst example_multiplexed, example_process\<lparr>user := [JObj [(''b'', JObj [(''onX'', JNum 1)])]]\<rparr>)
   \<and> step example_config (Socket (SocketMessage (data_frame ''1'' (JObj [(''onX'', JNum 1)]))))
     (run example_config [Socket SocketOpen, Socket (SocketMessage ack_frame)] example_start)
   = (Some example_ready_client, example_process\<lparr>user := [JObj [(''onX'', JNum 1)]]\<rparr>)"
proof -
  let ?s = "run example_config [Socket SocketOpen, Socket (SocketMessage ack_frame)] example_start"
  have r: "respects_registry example_config"
    unfolding example_config_def by (rule subscription_config_respects)
  have m: "client_run example_config example_ops
             (new_client ''ws://localhost:3000/graphql'', example_idle, [])
           = (fst example_multiplexed, fst (snd example_multiplexed), snd (snd example_multiplexed))"
    by (simp add: example_multiplexed_def)
  have i: "''3'' \<in> set (registered_ids (registry (fst example_multiplexed)))"
    by (simp add: example_multiplexed_facts)
  have a: "?s = run (subscription_config example_host (\<lambda>i. i) example_subscription)
                  [Socket SocketOpen, Socket (SocketMessage ack_frame)]
                  (subscribe example_host ''/graphql'' example_subscription 1 [])"
    by (simp only: example_config_def example_start_def)
  have b: "fst ?s = Some example_ready_client" by (simp add: example_ready)
  have c: "conn_state example_ready_client = Ready" by (simp add: example_ready_client_def)
  have d: "''1'' \<in> set (registered_ids (registry example_ready_client))"
    by (simp add: example_ready_client_def registered_ids_def)
  have h1: "respects_registry example_config \<and>
      client_run example_config example_ops
        (new_client ''ws://localhost:3000/graphql'', example_idle, [])
        = (fst example_multiplexed, fst (snd example_multiplexed), snd (snd example_multiplexed)) \<and>
      conn_state (fst example_multiplexed) = Ready \<and>
      (''3'', example_tag ''b'') \<in> set (snd (snd example_multiplexed)) \<and>
      ''3'' \<in> set (registered_ids (registry (fst example_multiplexed)))"
    using r m i example_multiplexed_facts(1,4) by blast
  have h2: "?s = run (subscription_config example_host (\<lambda>i. i) example_subscription)
                  [Socket SocketOpen, Socket (SocketMessage ack_frame)]
                  (subscribe example_host ''/graphql'' example_subscription 1 []) \<and>
      fst ?s = Some example_ready_client \<and> conn_state example_ready_client = Ready \<and>
      ''1'' \<in> set (registered_ids (registry example_ready_client))"
    using a b c d by blast
  note t1 = data_frame_invokes_onData [THEN conjunct1, THEN mp, OF h1]
  note t2 = data_frame_invokes_onData [THEN conjunct2, THEN mp, OF h2, folded example_config_def]
  have "receive example_config (SocketMessage (data_frame ''3'' (JObj [(''onX'', JNum 1)])))
     (fst example_multiplexed, example_process)
   = (fst example_multiplexed, example_process\<lparr>user := [JObj [(''b'', JObj [(''onX'', JNum 1)])]]\<rparr>)"
    using t1 [of "JObj [(''onX'', JNum 1)]" example_process]
    by (simp add: example_tag_def example_process_def)
  moreover have "step example_config (Socket (SocketMessage (data_frame ''1'' (JObj [(''onX'', JNum 1)])))) ?s
   = (Some example_ready_client, example_process\<lparr>user := [JObj [(''onX'', JNum 1)]]\<rparr>)"
    using t2 [of "JObj [(''onX'', JNum 1)]"]
    by (simp add: example_ready example_subscription_def example_process_def)
  ultimately show ?thesis by simp
qed

section \<open>Failure of the handshake\<close>



section \<open>Resolution of the promise\<close>

text \<open>
  C4: in every state a subscription can reach, the step that sends the "start" message
  leaves the promise pending and sets one timer, at that instant, with delay 20; and a
  step resolves the promise only by firing a timer of delay 20 that was set at least 20
  earlier, when the "start" message has already been sent.
\<close>

theorem resolved_after_start:
  assumes "s = run (subscription_config h topic sopts) evs (subscribe h url sopts a u)"
  shows "(\<forall>c c'. fst s = Some c \<and> fst (step (subscription_config h topic sopts) ev s) = Some c' \<and>
            ''start'' \<notin> set (sent_types c) \<and> ''start'' \<in> set (sent_types c') \<longrightarrow>
            promise (snd (step (subscription_config h topic sopts) ev s)) = Pending \<and>
            timers (snd (step (subscription_config h topic sopts) ev s)) = [(now (snd s), 20)])
       \<and> (promise (snd s) \<noteq> Resolved \<and>
            promise (snd (step (subscription_config h topic sopts) ev s)) = Resolved \<longrightarrow>
            ev = TimerFire \<and>
            (\<exists>c. fst s = Some c \<and> ''start'' \<in> set (sent_types c)) \<and>
            (\<exists>t0 ts. timers (snd s) = (t0, 20) # ts \<and> t0 + 20 \<le> now (snd s)))"
proof -
  let ?s' = "step (subscription_config h topic sopts) ev s"
  have i: "subscription_inv (so_onData sopts) s"
    unfolding assms(1) by (rule inv_reachable)
  then consider (p) "handshake_pending s" | (f) e where "handshake_failed e s"
    | (e) "established (so_onData sopts) s" | (n) "never_connected s"
    by (auto simp: subscription_inv_def)
  then show ?thesis
  proof cases
    case p
    from pending_step [OF p, of h topic sopts ev]
    consider "handshake_pending ?s'" | e where "handshake_failed e ?s'"
      | "established (so_onData sopts) ?s'" "promise (snd ?s') = Pending"
        "timers (snd ?s') = [(now (snd s), 20)]"
      by blast
    then show ?thesis
    proof cases
      case 1
      then show ?thesis by (auto simp: handshake_pending_def split: option.splits)
    next
      case 2
      then show ?thesis by (auto simp: handshake_failed_def split: option.splits)
    next
      case 3
      then show ?thesis by simp
    qed
  next
    case f
    from failed_step [OF f, of h topic sopts ev]
    show ?thesis by (auto simp: handshake_failed_def split: option.splits)
  next
    case e
    have a: "\<forall>c. fst s = Some c \<longrightarrow> ''start'' \<in> set (sent_types c)"
      using e by (auto simp: established_def)
    have b: "ev = TimerFire \<and> (\<exists>c. fst s = Some c \<and> ''start'' \<in> set (sent_types c)) \<and>
            (\<exists>t0 ts. timers (snd s) = (t0, 20) # ts \<and> t0 + 20 \<le> now (snd s))"
      if r: "promise (snd s) \<noteq> Resolved" "promise (snd ?s') = Resolved"
    proof -
      have t: "ev = TimerFire" using established_promise [OF e, of ev h topic] r by auto
      from timer_resolves [OF r(1) r(2) [unfolded t]]
      obtain t ts where ts: "timers (snd s) = t # ts" "fst t + snd t \<le> now (snd s)" by blast
      with e have "snd t = 20" by (auto simp: established_def)
      with ts have "timers (snd s) = (fst t, 20) # ts \<and> fst t + 20 \<le> now (snd s)"
        by (cases t) auto
      moreover from e have "\<exists>c. fst s = Some c \<and> ''start'' \<in> set (sent_types c)"
        by (auto simp: established_def split: option.splits)
      ultimately show ?thesis using t by blast
    qed
    show ?thesis using a b by blast
  next
    case n
    from never_step [OF n, of "subscription_config h topic sopts" ev]
    show ?thesis using n by (auto simp: never_connected_def)
  qed
qed

theorem resolved_after_start_witness:
  "promise (snd (step example_config (Socket (SocketMessage ack_frame))
       (run example_config [Socket SocketOpen] example_start))) = Pending
   \<and> timers (snd (step example_config (Socket (SocketMessage ack_frame))
       (run example_config [Socket SocketOpen] example_start))) = [(0, 20)]
   \<and> promise (snd (step example_config TimerFire
       (run example_config [Socket SocketOpen, Socket (SocketMessage ack_frame), Elapse 20] example_start)))
       = Resolved
   \<and> (\<exists>t0 ts. timers (snd (run example_config [Socket SocketOpen, Socket (SocketMessage ack_frame), Elapse 20] example_start)) = (t0, 20) # ts
        \<and> t0 + 20 \<le> now (snd (run example_config [Socket SocketOpen, Socket (SocketMessage ack_frame), Elapse 20] example_start)))"
proof -
  let ?h = "run example_config [Socket SocketOpen] example_start"
  let ?d = "run example_config [Socket SocketOpen, Socket (SocketMessage ack_frame), Elapse 20] example_start"
  have a: "?h = run (subscription_config example_host (\<lambda>i. i) example_subscription)
                  [Socket SocketOpen] (subscribe example_host ''/graphql'' example_subscription 1 [])"
    by (simp only: example_config_def example_start_def)
  have b: "?d = run (subscription_config example_host (\<lambda>i. i) example_subscription)
                  [Socket SocketOpen, Socket (SocketMessage ack_frame), Elapse 20]
                  (subscribe example_host ''/graphql'' example_subscription 1 [])"
    by (simp only: example_config_def example_start_def)
  have s: "step example_config (Socket (SocketMessage ack_frame)) ?h = (Some example_ready_client, example_process)"
    unfolding example_handshaking_eq
    by (simp add: run_defs example_ready_client_def example_process_def)
  have t: "promise (snd (step example_config TimerFire ?d)) = Resolved"
    unfolding example_due_eq by (simp add: step_def fire_timer_def resolve_def example_process_def)
  have p: "promise (snd ?d) \<noteq> Resolved"
    unfolding example_due_eq by (simp add: example_process_def)
  have h1: "fst ?h = Some (the (fst ?h)) \<and> fst (step example_config (Socket (SocketMessage ack_frame)) ?h) = Some example_ready_client \<and>
            ''start'' \<notin> set (sent_types (the (fst ?h))) \<and> ''start'' \<in> set (sent_types example_ready_client)"
    unfolding s unfolding example_handshaking_eq
    by (simp add: sent_types_def example_ready_client_def)
  note r1 = resolved_after_start [OF a, folded example_config_def, of "Socket (SocketMessage ack_frame)"]
  note r2 = resolved_after_start [OF b, folded example_config_def, of TimerFire]
  from r1 h1 have "promise (snd (step example_config (Socket (SocketMessage ack_frame)) ?h)) = Pending
      \<and> timers (snd (step example_config (Socket (SocketMessage ack_frame)) ?h)) = [(now (snd ?h), 20)]"
    by blast
  moreover have "now (snd ?h) = 0" unfolding example_handshaking_eq by simp
  moreover from r2 p t have "\<exists>t0 ts. timers (snd ?d) = (t0, 20) # ts \<and> t0 + 20 \<le> now (snd ?d)"
    by blast
  ultimately show ?thesis using t by simp
qed

end
